theory Spec2Isabelle
  imports Complex_Main "HOL-Library.Sublist" "HOL-Library.List_Lexorder"
begin

section \<open>Python values used by the engine\<close>

text \<open>
  Exceptions are values: every function of the source that can raise returns
  \<open>error + 'a\<close>, with \<open>Inl\<close> carrying the exception class.
\<close>

datatype error = ValueError | KeyError | IndexError | TypeError | AttributeError

definition bind :: "error + 'a \<Rightarrow> ('a \<Rightarrow> error + 'b) \<Rightarrow> error + 'b" where
  "bind m f = (case m of Inl e \<Rightarrow> Inl e | Inr x \<Rightarrow> f x)"

text \<open>\<open>xs[0]\<close> raises IndexError on an empty list.\<close>

definition first :: "'a list \<Rightarrow> error + 'a" where
  "first xs = (case xs of [] \<Rightarrow> Inl IndexError | x # _ \<Rightarrow> Inr x)"

text \<open>
  Strings are lists of 8-bit characters (code points below 256).  \<open>str.upper\<close> and
  \<open>str.lower\<close> are modelled on the ASCII letters; \<open>str.isdigit\<close> holds of a
  non-empty string of ASCII digits or of the superscript digits U+00B2, U+00B3, U+00B9,
  and \<open>int\<close> of a string that passes \<open>isdigit\<close> is its decimal value, or ValueError when
  a superscript digit occurs in it.
\<close>

definition upper_char :: "char \<Rightarrow> char" where
  "upper_char c = (let n = (of_char c :: nat) in if 97 \<le> n \<and> n \<le> 122 then char_of (n - 32) else c)"

definition lower_char :: "char \<Rightarrow> char" where
  "lower_char c = (let n = (of_char c :: nat) in if 65 \<le> n \<and> n \<le> 90 then char_of (n + 32) else c)"

definition upper :: "string \<Rightarrow> string" where
  "upper s = map upper_char s"

definition lower :: "string \<Rightarrow> string" where
  "lower s = map lower_char s"

definition ascii_digit :: "char \<Rightarrow> bool" where
  "ascii_digit c = (let n = (of_char c :: nat) in 48 \<le> n \<and> n \<le> 57)"

definition superscript_digit :: "char \<Rightarrow> bool" where
  "superscript_digit c = (let n = (of_char c :: nat) in n = 178 \<or> n = 179 \<or> n = 185)"

definition isdigit :: "string \<Rightarrow> bool" where
  "isdigit s = (s \<noteq> [] \<and> list_all (\<lambda>c. ascii_digit c \<or> superscript_digit c) s)"

definition digit_value :: "char \<Rightarrow> int" where
  "digit_value c = int (of_char c) - 48"

definition decimal :: "string \<Rightarrow> int" where
  "decimal s = foldl (\<lambda>acc c. 10 * acc + digit_value c) 0 s"

definition int_of_str :: "string \<Rightarrow> error + int" where
  "int_of_str s = (if s \<noteq> [] \<and> list_all ascii_digit s then Inr (decimal s) else Inl ValueError)"

text \<open>\<open>str(n)\<close> for a non-negative integer.\<close>

fun str_nat :: "nat \<Rightarrow> string" where
  "str_nat n = (if n < 10 then [char_of (48 + n)] else str_nat (n div 10) @ [char_of (48 + n mod 10)])"

definition str_int :: "int \<Rightarrow> string" where
  "str_int i = (if i < 0 then CHR ''-'' # str_nat (nat (- i)) else str_nat (nat i))"

section \<open>Card model (app/engine/card.py)\<close>

datatype Suit = HEARTS | DIAMONDS | CLUBS | SPADES

fun suit_value :: "Suit \<Rightarrow> int" where
  "suit_value HEARTS = 0"
| "suit_value DIAMONDS = 1"
| "suit_value CLUBS = 2"
| "suit_value SPADES = 3"

fun letter :: "Suit \<Rightarrow> string" where
  "letter HEARTS = ''h''"
| "letter DIAMONDS = ''d''"
| "letter CLUBS = ''c''"
| "letter SPADES = ''s''"


datatype Rank = TWO | THREE | FOUR | FIVE | SIX | SEVEN | EIGHT | NINE | TEN
  | JACK | QUEEN | KING | ACE

fun rank_value :: "Rank \<Rightarrow> int" where
  "rank_value TWO = 2"
| "rank_value THREE = 3"
| "rank_value FOUR = 4"
| "rank_value FIVE = 5"
| "rank_value SIX = 6"
| "rank_value SEVEN = 7"
| "rank_value EIGHT = 8"
| "rank_value NINE = 9"
| "rank_value TEN = 10"
| "rank_value JACK = 11"
| "rank_value QUEEN = 12"
| "rank_value KING = 13"
| "rank_value ACE = 14"

text \<open>\<open>list(Suit)\<close> and \<open>list(Rank)\<close>: the members in definition order.\<close>

definition all_suits :: "Suit list" where
  "all_suits = [HEARTS, DIAMONDS, CLUBS, SPADES]"

definition all_ranks :: "Rank list" where
  "all_ranks = [TWO, THREE, FOUR, FIVE, SIX, SEVEN, EIGHT, NINE, TEN, JACK, QUEEN, KING, ACE]"

text \<open>\<open>Rank(n)\<close>: the member with value \<open>n\<close>, ValueError when there is none.\<close>

definition Rank_of :: "int \<Rightarrow> error + Rank" where
  "Rank_of n = (case filter (\<lambda>r. rank_value r = n) all_ranks of [] \<Rightarrow> Inl ValueError | r # _ \<Rightarrow> Inr r)"

definition symbol :: "Rank \<Rightarrow> string" where
  "symbol r =
     (if rank_value r \<le> 10 then str_int (rank_value r)
      else if r = JACK then ''J''
      else if r = QUEEN then ''Q''
      else if r = KING then ''K''
      else ''A'')"

definition from_symbol :: "string \<Rightarrow> error + Rank" where
  "from_symbol smb =
     (let s = upper smb in
      if isdigit s then bind (int_of_str s) Rank_of
      else if s = ''T'' then Inr TEN
      else if s = ''J'' then Inr JACK
      else if s = ''Q'' then Inr QUEEN
      else if s = ''K'' then Inr KING
      else if s = ''A'' then Inr ACE
      else Inl KeyError)"

datatype Card = Card (rank: Rank) (suit: Suit)


definition card_str :: "Card \<Rightarrow> string" where
  "card_str c = symbol (rank c) @ letter (suit c)"

section \<open>Hand rankings (app/engine/hand_rankings.py)\<close>

datatype HandRank = HIGH_CARD | ONE_PAIR | TWO_PAIR | THREE_OF_A_KIND | STRAIGHT | FLUSH
  | FULL_HOUSE | FOUR_OF_A_KIND | STRAIGHT_FLUSH | ROYAL_FLUSH

fun hand_rank_value :: "HandRank \<Rightarrow> int" where
  "hand_rank_value HIGH_CARD = 1"
| "hand_rank_value ONE_PAIR = 2"
| "hand_rank_value TWO_PAIR = 3"
| "hand_rank_value THREE_OF_A_KIND = 4"
| "hand_rank_value STRAIGHT = 5"
| "hand_rank_value FLUSH = 6"
| "hand_rank_value FULL_HOUSE = 7"
| "hand_rank_value FOUR_OF_A_KIND = 8"
| "hand_rank_value STRAIGHT_FLUSH = 9"
| "hand_rank_value ROYAL_FLUSH = 10"

definition all_hand_ranks :: "HandRank list" where
  "all_hand_ranks = [HIGH_CARD, ONE_PAIR, TWO_PAIR, THREE_OF_A_KIND, STRAIGHT, FLUSH,
     FULL_HOUSE, FOUR_OF_A_KIND, STRAIGHT_FLUSH, ROYAL_FLUSH]"

section \<open>Hand evaluator (app/engine/hand_evaluator.py)\<close>

text \<open>
  The dataclass \<open>EvaluatedHand\<close>; its field \<open>rank\<close> is \<open>hrank\<close> here, since \<open>rank\<close>
  is the field of \<open>Card\<close>.  Tuples of integers are integer lists.
\<close>

record EvaluatedHand =
  hrank :: HandRank
  primary_values :: "int list"
  kickers :: "int list"
  cards :: "Card list"

definition score :: "EvaluatedHand \<Rightarrow> int list" where
  "score h = hand_rank_value (hrank h) # primary_values h @ kickers h"

text \<open>
  Python's \<open><\<close> on tuples: the first position where the elements differ decides; when one
  tuple is a prefix of the other, the shorter one is the smaller.
\<close>

fun tuple_lt :: "int list \<Rightarrow> int list \<Rightarrow> bool" where
  "tuple_lt [] [] = False"
| "tuple_lt [] (y # ys) = True"
| "tuple_lt (x # xs) [] = False"
| "tuple_lt (x # xs) (y # ys) = (if x = y then tuple_lt xs ys else x < y)"

text \<open>\<open>__lt__\<close>, \<open>__gt__\<close> and \<open>__eq__\<close> of \<open>EvaluatedHand\<close>.\<close>

definition hand_lt :: "EvaluatedHand \<Rightarrow> EvaluatedHand \<Rightarrow> bool" where
  "hand_lt self other = tuple_lt (score self) (score other)"

definition hand_gt :: "EvaluatedHand \<Rightarrow> EvaluatedHand \<Rightarrow> bool" where
  "hand_gt self other = tuple_lt (score other) (score self)"

definition hand_eq :: "EvaluatedHand \<Rightarrow> EvaluatedHand \<Rightarrow> bool" where
  "hand_eq self other = (score self = score other)"

text \<open>\<open>sorted(xs, reverse=True)\<close> on integers.\<close>

definition sorted_desc :: "int list \<Rightarrow> int list" where
  "sorted_desc xs = rev (sort xs)"

text \<open>
  \<open>collections.Counter\<close>: a dictionary from element to count that keeps the order in
  which the keys were first inserted; \<open>items()\<close> is the association list itself.
\<close>

fun counter_add :: "'a \<Rightarrow> ('a \<times> nat) list \<Rightarrow> ('a \<times> nat) list" where
  "counter_add x [] = [(x, 1)]"
| "counter_add x ((k, c) # m) = (if k = x then (k, Suc c) # m else (k, c) # counter_add x m)"

definition Counter :: "'a list \<Rightarrow> ('a \<times> nat) list" where
  "Counter xs = foldl (\<lambda>m x. counter_add x m) [] xs"

definition counter_values :: "('a \<times> nat) list \<Rightarrow> nat list" where
  "counter_values m = map snd m"

text \<open>\<open>[r for r, c in rank_counts.items() if c == n]\<close>\<close>

definition ranks_with_count :: "('a \<times> nat) list \<Rightarrow> nat \<Rightarrow> 'a list" where
  "ranks_with_count m n = map fst (filter (\<lambda>(r, c). c = n) m)"

definition check_straight :: "int list \<Rightarrow> bool \<times> int" where
  "check_straight ranks =
     (let unique_ranks = sorted_desc (remdups ranks) in
      if length unique_ranks \<noteq> 5 then (False, 0)
      else if unique_ranks ! 0 - unique_ranks ! 4 = 4 then (True, unique_ranks ! 0)
      else if unique_ranks = [14, 5, 4, 3, 2] then (True, 5)
      else (False, 0))"

definition evaluate_five :: "Card list \<Rightarrow> error + EvaluatedHand" where
  "evaluate_five cs =
     (let ranks = sorted_desc (map (\<lambda>c. rank_value (rank c)) cs);
          suits = map suit cs;
          rank_counts = Counter ranks;
          is_flush = (length (remdups suits) = 1);
          (is_straight, straight_high) = check_straight ranks
      in
      if is_flush \<and> is_straight then
        (if straight_high = 14 then
           Inr \<lparr>hrank = ROYAL_FLUSH, primary_values = [14], kickers = [], cards = cs\<rparr>
         else
           Inr \<lparr>hrank = STRAIGHT_FLUSH, primary_values = [straight_high], kickers = [], cards = cs\<rparr>)
      else if 4 \<in> set (counter_values rank_counts) then
        bind (first (ranks_with_count rank_counts 4)) (\<lambda>quad_rank.
        bind (first (filter (\<lambda>r. r \<noteq> quad_rank) ranks)) (\<lambda>kicker.
          Inr \<lparr>hrank = FOUR_OF_A_KIND, primary_values = [quad_rank], kickers = [kicker], cards = cs\<rparr>))
      else if 3 \<in> set (counter_values rank_counts) \<and> 2 \<in> set (counter_values rank_counts) then
        bind (first (ranks_with_count rank_counts 3)) (\<lambda>trips_rank.
        bind (first (ranks_with_count rank_counts 2)) (\<lambda>pair_rank.
          Inr \<lparr>hrank = FULL_HOUSE, primary_values = [trips_rank, pair_rank], kickers = [], cards = cs\<rparr>))
      else if is_flush then
        Inr \<lparr>hrank = FLUSH, primary_values = ranks, kickers = [], cards = cs\<rparr>
      else if is_straight then
        Inr \<lparr>hrank = STRAIGHT, primary_values = [straight_high], kickers = [], cards = cs\<rparr>
      else if 3 \<in> set (counter_values rank_counts) then
        bind (first (ranks_with_count rank_counts 3)) (\<lambda>trips_rank.
          Inr \<lparr>hrank = THREE_OF_A_KIND, primary_values = [trips_rank],
               kickers = sorted_desc (filter (\<lambda>r. r \<noteq> trips_rank) ranks), cards = cs\<rparr>)
      else
        (let pairs = ranks_with_count rank_counts 2 in
         if length pairs = 2 then
           (let pairs = sorted_desc pairs in
            bind (first (filter (\<lambda>r. r \<notin> set pairs) ranks)) (\<lambda>kicker.
              Inr \<lparr>hrank = TWO_PAIR, primary_values = pairs, kickers = [kicker], cards = cs\<rparr>))
         else if length pairs = 1 then
           (let pair_rank = pairs ! 0 in
            Inr \<lparr>hrank = ONE_PAIR, primary_values = [pair_rank],
                 kickers = sorted_desc (filter (\<lambda>r. r \<noteq> pair_rank) ranks), cards = cs\<rparr>)
         else
           bind (first ranks) (\<lambda>high.
             Inr \<lparr>hrank = HIGH_CARD, primary_values = [high], kickers = tl ranks, cards = cs\<rparr>)))"

text \<open>
  \<open>itertools.combinations(xs, k)\<close>: the \<open>k\<close>-element subsequences of \<open>xs\<close>, in
  lexicographic order of their index tuples (those through the first element first).
\<close>

fun combinations :: "'a list \<Rightarrow> nat \<Rightarrow> 'a list list" where
  "combinations xs 0 = [[]]"
| "combinations [] (Suc k) = []"
| "combinations (x # xs) (Suc k) = map ((#) x) (combinations xs k) @ combinations xs (Suc k)"

text \<open>
  The loop of \<open>evaluate\<close> over the combinations, with \<open>best_hand\<close> as accumulator
  (\<open>None\<close> before the first combination).
\<close>

fun best_of :: "Card list list \<Rightarrow> EvaluatedHand option \<Rightarrow> error + EvaluatedHand option" where
  "best_of [] best_hand = Inr best_hand"
| "best_of (combo # rest) best_hand =
     bind (evaluate_five combo) (\<lambda>hand.
       best_of rest (case best_hand of None \<Rightarrow> Some hand
                     | Some b \<Rightarrow> if hand_gt hand b then Some hand else Some b))"

text \<open>
  \<open>evaluate\<close> returns \<open>best_hand\<close>, which is Python's \<open>None\<close> when the loop never ran.
  The model returns \<open>Inr None\<close> there.
\<close>

definition evaluate :: "Card list \<Rightarrow> error + EvaluatedHand option" where
  "evaluate cs =
     (if length cs < 5 then Inl ValueError
      else if length cs = 5 then bind (evaluate_five cs) (\<lambda>h. Inr (Some h))
      else best_of (combinations cs 5) None)"

text \<open>
  Comparing with \<open>None\<close> is an error in Python: \<open>None > None\<close> is a TypeError, and
  \<open>__gt__\<close>/\<open>__lt__\<close> of an \<open>EvaluatedHand\<close> against \<open>None\<close> read \<open>None.score\<close>, an
  AttributeError.
\<close>

definition gt_opt :: "EvaluatedHand option \<Rightarrow> EvaluatedHand option \<Rightarrow> error + bool" where
  "gt_opt a b =
     (case (a, b) of
        (Some x, Some y) \<Rightarrow> Inr (hand_gt x y)
      | (None, None) \<Rightarrow> Inl TypeError
      | _ \<Rightarrow> Inl AttributeError)"

definition lt_opt :: "EvaluatedHand option \<Rightarrow> EvaluatedHand option \<Rightarrow> error + bool" where
  "lt_opt a b =
     (case (a, b) of
        (Some x, Some y) \<Rightarrow> Inr (hand_lt x y)
      | (None, None) \<Rightarrow> Inl TypeError
      | _ \<Rightarrow> Inl AttributeError)"

definition compare_hands :: "Card list \<Rightarrow> Card list \<Rightarrow> error + int" where
  "compare_hands hand1 hand2 =
     bind (evaluate hand1) (\<lambda>eval1.
     bind (evaluate hand2) (\<lambda>eval2.
     bind (gt_opt eval1 eval2) (\<lambda>gt.
       if gt then Inr 1
       else bind (lt_opt eval1 eval2) (\<lambda>lt. if lt then Inr (- 1) else Inr 0))))"

section \<open>The random module\<close>

text \<open>
  The generator's state is a tape of natural numbers and a read position.  Every draw
  \<open>randbelow n\<close> reads one cell and reduces it modulo \<open>n\<close>, so every sequence of outcomes
  of the calls below is produced by some tape.  \<open>choice\<close>, \<open>randint\<close>, \<open>shuffle\<close>
  (Fisher--Yates from the last index down) and \<open>sample\<close> (the pool selection CPython
  uses for populations of at most 21 elements) are built on it as in CPython.
\<close>

record rng =
  tape :: "nat \<Rightarrow> nat"
  pos :: nat

definition randbelow :: "nat \<Rightarrow> rng \<Rightarrow> nat \<times> rng" where
  "randbelow n g = (tape g (pos g) mod n, g\<lparr>pos := Suc (pos g)\<rparr>)"

definition choice :: "'a list \<Rightarrow> rng \<Rightarrow> error + ('a \<times> rng)" where
  "choice xs g =
     (if xs = [] then Inl IndexError
      else let (i, g') = randbelow (length xs) g in Inr (xs ! i, g'))"

definition randint :: "int \<Rightarrow> int \<Rightarrow> rng \<Rightarrow> int \<times> rng" where
  "randint a b g = (let (i, g') = randbelow (nat (b - a + 1)) g in (a + int i, g'))"

fun shuffle_loop :: "nat \<Rightarrow> 'a list \<Rightarrow> rng \<Rightarrow> 'a list \<times> rng" where
  "shuffle_loop 0 xs g = (xs, g)"
| "shuffle_loop (Suc i) xs g =
     (let (j, g') = randbelow (Suc i + 1) g
      in shuffle_loop i (xs[Suc i := xs ! j, j := xs ! Suc i]) g')"

definition shuffle :: "'a list \<Rightarrow> rng \<Rightarrow> 'a list \<times> rng" where
  "shuffle xs g = shuffle_loop (length xs - 1) xs g"

fun sample_loop :: "nat \<Rightarrow> 'a list \<Rightarrow> nat \<Rightarrow> rng \<Rightarrow> 'a list \<times> rng" where
  "sample_loop 0 pool n g = ([], g)"
| "sample_loop (Suc k) pool n g =
     (let (j, g') = randbelow n g;
          (rest, g'') = sample_loop k (pool[j := pool ! (n - 1)]) (n - 1) g'
      in (pool ! j # rest, g''))"

definition sample :: "'a list \<Rightarrow> nat \<Rightarrow> rng \<Rightarrow> error + ('a list \<times> rng)" where
  "sample population k g =
     (if length population < k then Inl ValueError
      else Inr (sample_loop k population (length population) g))"

text \<open>\<open>[random.choice(xs) for _ in range(n)]\<close>\<close>

fun choice_list :: "nat \<Rightarrow> 'a list \<Rightarrow> rng \<Rightarrow> error + ('a list \<times> rng)" where
  "choice_list 0 xs g = Inr ([], g)"
| "choice_list (Suc n) xs g =
     bind (choice xs g) (\<lambda>(x, g').
     bind (choice_list n xs g') (\<lambda>(rest, g''). Inr (x # rest, g'')))"

section \<open>Deck (app/engine/card.py)\<close>

text \<open>A deck is its list \<open>cards\<close>.\<close>

definition fresh_cards :: "Card list" where
  "fresh_cards = concat (map (\<lambda>s. map (\<lambda>r. Card r s) all_ranks) all_suits)"

definition reset :: "rng \<Rightarrow> Card list \<times> rng" where
  "reset g = shuffle fresh_cards g"

definition draw :: "nat \<Rightarrow> Card list \<Rightarrow> error + (Card list \<times> Card list)" where
  "draw n deck = (if length deck < n then Inl ValueError else Inr (take n deck, drop n deck))"

section \<open>Starting hands (app/engine/starting_hands.py)\<close>

datatype HandCategory = PREMIUM | STRONG | PLAYABLE | MARGINAL | WEAK

fun category_value :: "HandCategory \<Rightarrow> int" where
  "category_value PREMIUM = 4"
| "category_value STRONG = 3"
| "category_value PLAYABLE = 2"
| "category_value MARGINAL = 1"
| "category_value WEAK = 0"

record StartingHand =
  card1 :: string
  card2 :: string
  suited :: bool

text \<open>The property \<open>notation\<close> of \<open>StartingHand\<close>.\<close>

definition hand_notation :: "StartingHand \<Rightarrow> string" where
  "hand_notation h =
     (if card1 h = card2 h then card1 h @ card2 h
      else card1 h @ card2 h @ (if suited h then ''s'' else ''o''))"

definition PREMIUM_hands :: "string list" where
  "PREMIUM_hands = [''AA'', ''KK'', ''QQ'', ''AKs'']"

definition STRONG_hands :: "string list" where
  "STRONG_hands = [''JJ'', ''TT'', ''AKo'', ''AQs'', ''AQo'', ''AJs'', ''KQs'']"

definition PLAYABLE_hands :: "string list" where
  "PLAYABLE_hands = [''99'', ''88'', ''77'', ''ATs'', ''AJo'', ''KQo'', ''KJs'', ''KTs'',
     ''QJs'', ''QTs'', ''JTs'', ''T9s'', ''98s'', ''87s'', ''76s'']"

definition MARGINAL_hands :: "string list" where
  "MARGINAL_hands = [''66'', ''55'', ''44'', ''33'', ''22'', ''A9s'', ''A8s'', ''A7s'', ''A6s'',
     ''A5s'', ''A4s'', ''A3s'', ''A2s'', ''ATo'', ''KJo'', ''KTo'', ''QJo'', ''QTo'', ''JTo'',
     ''K9s'', ''Q9s'', ''J9s'', ''T8s'', ''97s'', ''86s'', ''75s'', ''65s'', ''54s'']"

definition category_of_notation :: "string \<Rightarrow> HandCategory" where
  "category_of_notation n =
     (if n \<in> set PREMIUM_hands then PREMIUM
      else if n \<in> set STRONG_hands then STRONG
      else if n \<in> set PLAYABLE_hands then PLAYABLE
      else if n \<in> set MARGINAL_hands then MARGINAL
      else WEAK)"

definition get_category :: "StartingHand \<Rightarrow> HandCategory" where
  "get_category h = category_of_notation (hand_notation h)"

definition from_cards :: "Card \<Rightarrow> Card \<Rightarrow> StartingHand" where
  "from_cards c1 c2 =
     (let (r1, r2) = (if rank_value (rank c2) > rank_value (rank c1)
                      then (rank c2, rank c1) else (rank c1, rank c2))
      in \<lparr>card1 = symbol r1, card2 = symbol r2, suited = (suit c1 = suit c2)\<rparr>)"

definition from_notation :: "string \<Rightarrow> error + StartingHand" where
  "from_notation n =
     (if length n = 2 then Inr \<lparr>card1 = [n ! 0], card2 = [n ! 1], suited = False\<rparr>
      else if length n = 3 then
        Inr \<lparr>card1 = [n ! 0], card2 = [n ! 1], suited = (lower [n ! 2] = ''s'')\<rparr>
      else Inl ValueError)"

text \<open>\<open>_notation_to_cards\<close>: the suits are a shuffle of \<open>list(Suit)\<close>.\<close>

definition notation_to_cards :: "StartingHand \<Rightarrow> rng \<Rightarrow> error + (Card list \<times> rng)" where
  "notation_to_cards h g =
     bind (from_symbol (card1 h)) (\<lambda>rank1.
     bind (from_symbol (card2 h)) (\<lambda>rank2.
       let (suits, g') = shuffle all_suits g in
       if suited h then Inr ([Card rank1 (suits ! 0), Card rank2 (suits ! 0)], g')
       else Inr ([Card rank1 (suits ! 0), Card rank2 (suits ! 1)], g')))"

definition should_play :: "StartingHand \<Rightarrow> string \<Rightarrow> bool" where
  "should_play h position =
     (let category = get_category h in
      if position = ''early'' then category_value category \<ge> category_value STRONG
      else if position = ''middle'' then category_value category \<ge> category_value PLAYABLE
      else if position = ''late'' \<or> position = ''blinds'' then
        category_value category \<ge> category_value MARGINAL
      else category_value category \<ge> category_value PLAYABLE)"

section \<open>Question generator (app/learning/question_generator.py)\<close>

text \<open>
  A generator function reads the random tape, may raise and, where it has a \<open>while\<close>
  loop, may fail to return: its result is \<open>None\<close> when it does not return,
  \<open>Some (Inl e)\<close> when it raises \<open>e\<close> and \<open>Some (Inr (x, g))\<close> when it returns \<open>x\<close>
  and leaves the random state \<open>g\<close>.
\<close>

type_synonym 'a gen = "rng \<Rightarrow> (error + 'a \<times> rng) option"

definition gbind :: "'a gen \<Rightarrow> ('a \<Rightarrow> 'b gen) \<Rightarrow> 'b gen" where
  "gbind m f g =
     (case m g of None \<Rightarrow> None | Some (Inl e) \<Rightarrow> Some (Inl e) | Some (Inr (x, g')) \<Rightarrow> f x g')"

definition greturn :: "'a \<Rightarrow> 'a gen" where
  "greturn x g = Some (Inr (x, g))"

definition graise :: "error \<Rightarrow> 'a gen" where
  "graise e g = Some (Inl e)"

definition of_rnd :: "(rng \<Rightarrow> 'a \<times> rng) \<Rightarrow> 'a gen" where
  "of_rnd f g = Some (Inr (f g))"

definition of_res :: "(rng \<Rightarrow> error + 'a \<times> rng) \<Rightarrow> 'a gen" where
  "of_res f g = Some (f g)"

definition of_err :: "error + 'a \<Rightarrow> 'a gen" where
  "of_err r g = (case r of Inl e \<Rightarrow> Some (Inl e) | Inr x \<Rightarrow> Some (Inr (x, g)))"

text \<open>A list comprehension whose element expression may raise.\<close>

fun map_raise :: "('a \<Rightarrow> error + 'b) \<Rightarrow> 'a list \<Rightarrow> error + 'b list" where
  "map_raise f [] = Inr []"
| "map_raise f (x # xs) = bind (f x) (\<lambda>y. bind (map_raise f xs) (\<lambda>ys. Inr (y # ys)))"

text \<open>\<open>range(high, high - n, -1)\<close>\<close>

definition range_down :: "int \<Rightarrow> nat \<Rightarrow> int list" where
  "range_down high n = map (\<lambda>i. high - int i) [0..<n]"

text \<open>\<open>sorted(rs, reverse=True)\<close> on ranks, which compare by value.\<close>

definition sorted_ranks_desc :: "Rank list \<Rightarrow> Rank list" where
  "sorted_ranks_desc rs = rev (sort_key rank_value rs)"

definition make_royal_flush :: "Card list \<Rightarrow> Card list gen" where
  "make_royal_flush deck =
     gbind (of_res (choice all_suits)) (\<lambda>su.
       greturn [Card ACE su, Card KING su, Card QUEEN su, Card JACK su, Card TEN su])"

definition make_straight_flush :: "Card list \<Rightarrow> Card list gen" where
  "make_straight_flush deck =
     gbind (of_res (choice all_suits)) (\<lambda>su.
     gbind (of_rnd (randint 5 9)) (\<lambda>high_rank.
       of_err (map_raise (\<lambda>r. bind (Rank_of r) (\<lambda>rk. Inr (Card rk su))) (range_down high_rank 5))))"

definition make_four_of_a_kind :: "Card list \<Rightarrow> Card list gen" where
  "make_four_of_a_kind deck =
     gbind (of_res (choice all_ranks)) (\<lambda>quad_rank.
     gbind (of_res (choice (filter (\<lambda>r. r \<noteq> quad_rank) all_ranks))) (\<lambda>kicker_rank.
     gbind (of_res (choice all_suits)) (\<lambda>su.
       greturn (take 5 (map (\<lambda>s. Card quad_rank s) all_suits @ [Card kicker_rank su])))))"

definition make_full_house :: "Card list \<Rightarrow> Card list gen" where
  "make_full_house deck =
     gbind (of_res (choice all_ranks)) (\<lambda>trips_rank.
     gbind (of_res (choice (filter (\<lambda>r. r \<noteq> trips_rank) all_ranks))) (\<lambda>pair_rank.
     gbind (of_rnd (shuffle all_suits)) (\<lambda>suits.
       greturn (map (\<lambda>i. Card trips_rank (suits ! i)) [0..<3]
                @ map (\<lambda>i. Card pair_rank (suits ! i)) [0..<2]))))"

partial_function (option) flush_loop ::
    "Rank list \<Rightarrow> Rank list \<Rightarrow> rng \<Rightarrow> (error + Rank list \<times> rng) option" where
  "flush_loop available_ranks ranks g =
     (if rank_value (ranks ! 0) - rank_value (ranks ! 4) = 4 then
        (case shuffle available_ranks g of
           (available_ranks', g') \<Rightarrow>
             flush_loop available_ranks' (sorted_ranks_desc (take 5 available_ranks')) g')
      else Some (Inr (ranks, g)))"

definition make_flush :: "Card list \<Rightarrow> Card list gen" where
  "make_flush deck =
     gbind (of_res (choice all_suits)) (\<lambda>su.
     gbind (of_rnd (shuffle all_ranks)) (\<lambda>available_ranks.
     gbind (flush_loop available_ranks (sorted_ranks_desc (take 5 available_ranks))) (\<lambda>ranks.
       greturn (map (\<lambda>r. Card r su) ranks))))"

partial_function (option) suits_loop ::
    "Suit list \<Rightarrow> Suit list \<Rightarrow> rng \<Rightarrow> (error + Suit list \<times> rng) option" where
  "suits_loop suits card_suits g =
     (if length (remdups card_suits) = 1 then
        (case choice_list 5 suits g of
           Inl e \<Rightarrow> Some (Inl e)
         | Inr (card_suits', g') \<Rightarrow> suits_loop suits card_suits' g')
      else Some (Inr (card_suits, g)))"

definition make_straight :: "Card list \<Rightarrow> Card list gen" where
  "make_straight deck =
     gbind (of_rnd (randint 5 14)) (\<lambda>high_rank.
       let ranks = (if high_rank = 14 then [14, 13, 12, 11, 10]
                    else if high_rank = 5 then [5, 4, 3, 2, 14]
                    else range_down high_rank 5) in
     gbind (of_res (choice_list 5 all_suits)) (\<lambda>card_suits.
     gbind (suits_loop all_suits card_suits) (\<lambda>card_suits.
       of_err (map_raise (\<lambda>(r, s). bind (Rank_of r) (\<lambda>rk. Inr (Card rk s)))
                 (zip ranks card_suits)))))"

definition make_three_of_a_kind :: "Card list \<Rightarrow> Card list gen" where
  "make_three_of_a_kind deck =
     gbind (of_res (choice all_ranks)) (\<lambda>trips_rank.
     gbind (of_rnd (shuffle all_suits)) (\<lambda>suits.
     gbind (of_rnd (shuffle (filter (\<lambda>r. r \<noteq> trips_rank) all_ranks))) (\<lambda>other_ranks.
     gbind (of_res (choice suits)) (\<lambda>s1.
     gbind (of_res (choice suits)) (\<lambda>s2.
       greturn (map (\<lambda>i. Card trips_rank (suits ! i)) [0..<3]
                @ [Card (other_ranks ! 0) s1, Card (other_ranks ! 1) s2]))))))"

definition make_two_pair :: "Card list \<Rightarrow> Card list gen" where
  "make_two_pair deck =
     gbind (of_res (sample all_ranks 3)) (\<lambda>ranks.
     gbind (of_rnd (shuffle all_suits)) (\<lambda>suits.
     gbind (of_res (choice suits)) (\<lambda>s.
       greturn [Card (ranks ! 0) (suits ! 0), Card (ranks ! 0) (suits ! 1),
                Card (ranks ! 1) (suits ! 2), Card (ranks ! 1) (suits ! 3),
                Card (ranks ! 2) s])))"

definition make_one_pair :: "Card list \<Rightarrow> Card list gen" where
  "make_one_pair deck =
     gbind (of_res (choice all_ranks)) (\<lambda>pair_rank.
     gbind (of_rnd (shuffle all_suits)) (\<lambda>suits.
     gbind (of_rnd (shuffle (filter (\<lambda>r. r \<noteq> pair_rank) all_ranks))) (\<lambda>other_ranks.
     gbind (of_res (choice_list 3 suits)) (\<lambda>ks.
       greturn ([Card pair_rank (suits ! 0), Card pair_rank (suits ! 1)]
                @ map (\<lambda>i. Card (other_ranks ! i) (ks ! i)) [0..<3])))))"

partial_function (option) high_card_loop ::
    "Rank list \<Rightarrow> Rank list \<Rightarrow> rng \<Rightarrow> (error + Rank list \<times> rng) option" where
  "high_card_loop available_ranks ranks g =
     (if rank_value (ranks ! 0) - rank_value (ranks ! 4) = 4
         \<or> set (map rank_value ranks) = {14, 5, 4, 3, 2} then
        (case shuffle available_ranks g of
           (available_ranks', g') \<Rightarrow>
             high_card_loop available_ranks' (sorted_ranks_desc (take 5 available_ranks')) g')
      else Some (Inr (ranks, g)))"

declare flush_loop.simps [code] suits_loop.simps [code] high_card_loop.simps [code]

definition make_high_card :: "Card list \<Rightarrow> Card list gen" where
  "make_high_card deck =
     gbind (of_rnd (shuffle all_ranks)) (\<lambda>available_ranks.
     gbind (high_card_loop available_ranks (sorted_ranks_desc (take 5 available_ranks))) (\<lambda>ranks.
     gbind (of_res (choice_list 5 all_suits)) (\<lambda>card_suits.
     gbind (suits_loop all_suits card_suits) (\<lambda>card_suits.
       greturn (map (\<lambda>(r, s). Card r s) (zip ranks card_suits))))))"

text \<open>
  \<open>for card in exclude_cards: if card in deck.cards: deck.cards.remove(card)\<close>, run
  only when \<open>exclude_cards\<close> is neither \<open>None\<close> nor empty.
\<close>

definition remove_excluded :: "Card list option \<Rightarrow> Card list \<Rightarrow> Card list" where
  "remove_excluded exclude_cards deck =
     (case exclude_cards of
        None \<Rightarrow> deck
      | Some ex \<Rightarrow>
          if ex = [] then deck
          else foldl (\<lambda>d card. if card \<in> set d then remove1 card d else d) deck ex)"

definition make_hand :: "HandRank \<Rightarrow> Card list \<Rightarrow> Card list gen" where
  "make_hand target_rank deck =
     (if target_rank = ROYAL_FLUSH then make_royal_flush deck
      else if target_rank = STRAIGHT_FLUSH then make_straight_flush deck
      else if target_rank = FOUR_OF_A_KIND then make_four_of_a_kind deck
      else if target_rank = FULL_HOUSE then make_full_house deck
      else if target_rank = FLUSH then make_flush deck
      else if target_rank = STRAIGHT then make_straight deck
      else if target_rank = THREE_OF_A_KIND then make_three_of_a_kind deck
      else if target_rank = TWO_PAIR then make_two_pair deck
      else if target_rank = ONE_PAIR then make_one_pair deck
      else make_high_card deck)"

text \<open>
  The body of \<open>_generate_hand_of_rank\<close> from its \<open>for _ in range(max_attempts)\<close> loop on,
  by the number of attempts left; with none left it is the fallback draw.
\<close>

fun attempts :: "nat \<Rightarrow> HandRank \<Rightarrow> Card list option \<Rightarrow> Card list gen" where
  "attempts 0 target_rank exclude_cards =
     gbind (of_rnd reset) (\<lambda>deck.
       of_err (bind (draw 5 deck) (\<lambda>(drawn, rest). Inr drawn)))"
| "attempts (Suc n) target_rank exclude_cards =
     gbind (of_rnd reset) (\<lambda>deck.
     gbind (make_hand target_rank (remove_excluded exclude_cards deck)) (\<lambda>cs.
       if cs \<noteq> [] then
         gbind (of_err (evaluate cs)) (\<lambda>eval_result.
           case eval_result of
             None \<Rightarrow> graise AttributeError
           | Some e \<Rightarrow>
               if hrank e = target_rank then greturn cs
               else attempts n target_rank exclude_cards)
       else attempts n target_rank exclude_cards))"

definition generate_hand_of_rank :: "HandRank \<Rightarrow> Card list option \<Rightarrow> Card list gen" where
  "generate_hand_of_rank target_rank exclude_cards =
     gbind (of_rnd reset) (\<lambda>deck.
       let deck = remove_excluded exclude_cards deck
       in attempts 100 target_rank exclude_cards)"

text \<open>
  \<open>GeneratedQuestion\<close>, without the fresh \<open>question_id\<close> and the explanation and
  audit strings derived from the other fields.
\<close>

record GeneratedQuestion =
  question_type :: string
  prompt :: string
  q_cards :: "Card list"
  q_cards2 :: "Card list option"
  q_choices :: "string list"
  correct_answer :: string
  q_difficulty :: int

definition generate_which_wins_question :: "int \<Rightarrow> GeneratedQuestion gen" where
  "generate_which_wins_question difficulty =
     gbind
       (if difficulty \<le> 2 then
          gbind (of_res (choice [ONE_PAIR, TWO_PAIR, FLUSH])) (\<lambda>rank1.
            let rank2_options =
                  filter (\<lambda>r. \<bar>hand_rank_value r - hand_rank_value rank1\<bar> \<ge> 2) all_hand_ranks
            in if rank2_options \<noteq> [] then
                 gbind (of_res (choice rank2_options)) (\<lambda>rank2. greturn (rank1, rank2))
               else greturn (rank1, HIGH_CARD))
        else
          gbind (of_res (choice all_hand_ranks)) (\<lambda>rank1. greturn (rank1, rank1)))
       (\<lambda>(rank1, rank2).
     gbind (generate_hand_of_rank rank1 None) (\<lambda>cards1.
     gbind (generate_hand_of_rank rank2 (Some cards1)) (\<lambda>cards2.
     gbind (of_err (evaluate cards1)) (\<lambda>eval1.
     gbind (of_err (evaluate cards2)) (\<lambda>eval2.
     gbind (of_err (gt_opt eval1 eval2)) (\<lambda>gt1.
     gbind (if gt1 then greturn ''Hand 1''
            else gbind (of_err (gt_opt eval2 eval1)) (\<lambda>gt2.
                   greturn (if gt2 then ''Hand 2'' else ''Tie''))) (\<lambda>correct.
       greturn \<lparr>question_type = ''which_wins'', prompt = ''Which hand wins?'',
                q_cards = cards1, q_cards2 = Some cards2,
                q_choices = [''Hand 1'', ''Hand 2'', ''Tie''],
                correct_answer = correct, q_difficulty = difficulty\<rparr>)))))))"

section \<open>Progression engine (app/learning/progression.py, app/models/training.py)\<close>

text \<open>
  The two tables are lists of rows in the order the queries return them.  Timestamps
  are natural numbers supplied by the caller; the opaque \<open>question_data\<close> is left out.
  The property \<open>accuracy\<close> is a float in the source and the exact quotient here.
\<close>

record KnowledgeScore =
  user_id :: string
  topic :: string
  total_attempts :: int
  correct_attempts :: int
  current_streak :: int
  best_streak :: int
  current_difficulty :: int
  last_reviewed :: nat

record QuestionAttempt =
  a_user_id :: string
  a_question_type :: string
  a_correct :: bool
  a_response_time_ms :: "int option"
  a_difficulty :: int

record DB =
  scores :: "KnowledgeScore list"
  attempt_log :: "QuestionAttempt list"

definition accuracy :: "KnowledgeScore \<Rightarrow> real" where
  "accuracy s =
     (if total_attempts s = 0 then 0
      else (real_of_int (correct_attempts s) / real_of_int (total_attempts s)) * 100)"

text \<open>\<open>user_id or settings.default_user_id\<close>\<close>

definition effective_user :: "string option \<Rightarrow> string" where
  "effective_user u = (case u of None \<Rightarrow> ''anonymous'' | Some v \<Rightarrow> if v = [] then ''anonymous'' else v)"


definition matches :: "string \<Rightarrow> string \<Rightarrow> KnowledgeScore \<Rightarrow> bool" where
  "matches u t s = (user_id s = u \<and> topic s = t)"

definition get_or_create_score :: "DB \<Rightarrow> string \<Rightarrow> string option \<Rightarrow> nat \<Rightarrow> KnowledgeScore \<times> DB" where
  "get_or_create_score db t u now =
     (let uid = effective_user u in
      case filter (matches uid t) (scores db) of
        s # _ \<Rightarrow> (s, db)
      | [] \<Rightarrow>
          (let s = \<lparr>user_id = uid, topic = t, total_attempts = 0, correct_attempts = 0,
                    current_streak = 0, best_streak = 0, current_difficulty = 1,
                    last_reviewed = now\<rparr>
           in (s, db\<lparr>scores := scores db @ [s]\<rparr>)))"

definition calculate_new_difficulty :: "KnowledgeScore \<Rightarrow> int" where
  "calculate_new_difficulty s =
     (let current = current_difficulty s in
      if total_attempts s < 5 then current
      else if accuracy s \<ge> 80 \<or> current_streak s \<ge> 5 then min (current + 1) 5
      else if accuracy s < 50 then max (current - 1) 1
      else current)"

text \<open>The in-place update of the score object between the query and the commit.\<close>

definition update_score :: "KnowledgeScore \<Rightarrow> bool \<Rightarrow> nat \<Rightarrow> KnowledgeScore" where
  "update_score s0 correct now =
     (let s1 = s0\<lparr>total_attempts := total_attempts s0 + 1\<rparr>;
          s2 = (if correct then
                  (let s = s1\<lparr>correct_attempts := correct_attempts s1 + 1,
                              current_streak := current_streak s1 + 1\<rparr>
                   in if current_streak s > best_streak s
                      then s\<lparr>best_streak := current_streak s\<rparr> else s)
                else s1\<lparr>current_streak := 0\<rparr>);
          s3 = s2\<lparr>last_reviewed := now\<rparr>
      in s3\<lparr>current_difficulty := calculate_new_difficulty s3\<rparr>)"

text \<open>The commit writes the object back to its row, the first one of its user and topic.\<close>

fun store :: "KnowledgeScore \<Rightarrow> KnowledgeScore list \<Rightarrow> KnowledgeScore list" where
  "store s [] = []"
| "store s (r # rs) =
     (if matches (user_id s) (topic s) r then s # rs else r # store s rs)"

definition record_attempt ::
    "DB \<Rightarrow> string \<Rightarrow> bool \<Rightarrow> int option \<Rightarrow> int \<Rightarrow> string option \<Rightarrow> nat \<Rightarrow> KnowledgeScore \<times> DB" where
  "record_attempt db qtype correct response_time_ms difficulty u now =
     (let uid = effective_user u;
          attempt = \<lparr>a_user_id = uid, a_question_type = qtype, a_correct = correct,
                     a_response_time_ms = response_time_ms, a_difficulty = difficulty\<rparr>;
          db1 = db\<lparr>attempt_log := attempt_log db @ [attempt]\<rparr>;
          (s0, db2) = get_or_create_score db1 qtype (Some uid) now;
          s = update_score s0 correct now
      in (s, db2\<lparr>scores := store s (scores db2)\<rparr>))"



definition reset_stats :: "DB \<Rightarrow> string option \<Rightarrow> bool \<times> DB" where
  "reset_stats db u =
     (let uid = effective_user u in
      (True, \<lparr>scores = filter (\<lambda>s. user_id s \<noteq> uid) (scores db),
              attempt_log = filter (\<lambda>a. a_user_id a \<noteq> uid) (attempt_log db)\<rparr>))"

section \<open>Notions used in the statements\<close>








text \<open>
  The round trip of claim C1: from a notation to two cards and back, with the category
  of the notation and the category of the hand read off the cards.
\<close>

definition round_trip :: "string \<Rightarrow> rng \<Rightarrow> error + (HandCategory \<times> HandCategory)" where
  "round_trip n g =
     bind (from_notation n) (\<lambda>h.
     bind (notation_to_cards h g) (\<lambda>(cs, g').
     bind (first cs) (\<lambda>c1.
     bind (first (tl cs)) (\<lambda>c2.
       Inr (get_category h, get_category (from_cards c1 c2))))))"

definition all_notations :: "string list" where
  "all_notations = PREMIUM_hands @ STRONG_hands @ PLAYABLE_hands @ MARGINAL_hands"

text \<open>The ordering key of the result of a five-card evaluation and of \<open>evaluate\<close>.\<close>

definition five_key :: "Card list \<Rightarrow> int list" where
  "five_key c = (case evaluate_five c of Inr h \<Rightarrow> score h | Inl e \<Rightarrow> [])"

definition hand_key :: "Card list \<Rightarrow> int list" where
  "hand_key cs = (case evaluate cs of Inr (Some e) \<Rightarrow> score e | _ \<Rightarrow> [])"

text \<open>The invariant of a score row, and the databases that the engine can produce.\<close>

definition score_inv :: "KnowledgeScore \<Rightarrow> bool" where
  "score_inv s =
     (0 \<le> total_attempts s \<and> correct_attempts s \<le> total_attempts s
      \<and> 0 \<le> current_streak s \<and> current_streak s \<le> best_streak s
      \<and> 1 \<le> current_difficulty s \<and> current_difficulty s \<le> 5)"

inductive reachable :: "DB \<Rightarrow> bool" where
  empty_db: "reachable \<lparr>scores = [], attempt_log = []\<rparr>"
| created: "reachable db \<Longrightarrow> reachable (snd (get_or_create_score db t u now))"
| recorded: "reachable db \<Longrightarrow> reachable (snd (record_attempt db qtype correct rt d u now))"
| cleared: "reachable db \<Longrightarrow> reachable (snd (reset_stats db u))"



text \<open>What a generator function does on a tape, without the random state it leaves.\<close>

definition outcome :: "'a gen \<Rightarrow> rng \<Rightarrow> (error + 'a) option" where
  "outcome m g = map_option (map_sum id fst) (m g)"

text \<open>Concrete inputs.\<close>

definition zero_tape :: rng where
  "zero_tape = \<lparr>tape = (\<lambda>i. 0), pos = 0\<rparr>"

definition royal_tape :: rng where
  "royal_tape = \<lparr>tape = (\<lambda>i. if i = 0 then 9 else 0), pos = 0\<rparr>"

definition royal_hearts :: "Card list" where
  "royal_hearts = [Card ACE HEARTS, Card KING HEARTS, Card QUEEN HEARTS, Card JACK HEARTS,
     Card TEN HEARTS]"



definition seven_cards :: "Card list" where
  "seven_cards = [Card ACE HEARTS, Card KING HEARTS, Card QUEEN HEARTS, Card JACK HEARTS,
     Card TEN HEARTS, Card TWO DIAMONDS, Card THREE CLUBS]"

definition six_cards :: "Card list" where
  "six_cards = [Card ACE HEARTS, Card KING HEARTS, Card QUEEN HEARTS, Card JACK HEARTS,
     Card TEN HEARTS, Card TWO DIAMONDS]"

definition eight_cards :: "Card list" where
  "eight_cards = [Card NINE HEARTS, Card NINE DIAMONDS, Card NINE CLUBS, Card FOUR SPADES,
     Card FOUR HEARTS, Card TWO DIAMONDS, Card THREE CLUBS, Card KING SPADES]"

definition pair_of_aces :: "Card list" where
  "pair_of_aces = [Card ACE HEARTS, Card ACE DIAMONDS, Card KING CLUBS, Card SEVEN SPADES,
     Card TWO HEARTS]"

definition pair_of_kings :: "Card list" where
  "pair_of_kings = [Card KING HEARTS, Card KING DIAMONDS, Card QUEEN CLUBS, Card SEVEN SPADES,
     Card TWO HEARTS]"

section \<open>Progression: the transition rule and the invariant\<close>

lemma effective_user_idem: "effective_user (Some (effective_user u)) = effective_user u"
  by (auto simp: effective_user_def split: option.splits)



lemma get_or_create_fst:
  "fst (get_or_create_score (db\<lparr>attempt_log := l\<rparr>) t (Some (effective_user u)) now) = fst (get_or_create_score db t u now)"
  by (simp add: get_or_create_score_def effective_user_idem Let_def split: list.splits)

lemma fst_record_attempt:
  "fst (record_attempt db qtype correct rt d u now) = update_score (fst (get_or_create_score db qtype u now)) correct now"
  by (simp add: record_attempt_def Let_def split_beta get_or_create_fst)

lemma update_score_fields:
  "total_attempts (update_score s0 c now) = total_attempts s0 + 1"
  "correct_attempts (update_score s0 c now) = correct_attempts s0 + (if c then 1 else 0)"
  "current_streak (update_score s0 c now) = (if c then current_streak s0 + 1 else 0)"
  "best_streak (update_score s0 c now) = (if c \<and> current_streak s0 + 1 > best_streak s0 then current_streak s0 + 1 else best_streak s0)"
  "user_id (update_score s0 c now) = user_id s0"
  "topic (update_score s0 c now) = topic s0"
  by (simp_all add: update_score_def Let_def)




lemma score_inv_update: "score_inv s0 \<Longrightarrow> score_inv (update_score s0 c now)"
  by (auto simp: score_inv_def update_score_def Let_def calculate_new_difficulty_def)

lemma set_store: "set (store s rs) \<subseteq> insert s (set rs)"
  by (induction rs) auto

lemma get_or_create_inv:
  assumes "\<forall>s\<in>set (scores db). score_inv s"
  shows "score_inv (fst (get_or_create_score db t u now))"
    and "\<forall>s\<in>set (scores (snd (get_or_create_score db t u now))). score_inv s"
proof -
  show "score_inv (fst (get_or_create_score db t u now))"
  proof (cases "filter (matches (effective_user u) t) (scores db)")
    case Nil
    then show ?thesis by (simp add: get_or_create_score_def Let_def score_inv_def)
  next
    case (Cons s rest)
    have "s \<in> set (filter (matches (effective_user u) t) (scores db))"
      unfolding Cons by simp
    then have "s \<in> set (scores db)" by simp
    with assms Cons show ?thesis by (simp add: get_or_create_score_def Let_def)
  qed
  show "\<forall>s\<in>set (scores (snd (get_or_create_score db t u now))). score_inv s"
    using assms
    by (cases "filter (matches (effective_user u) t) (scores db)")
       (auto simp: get_or_create_score_def Let_def score_inv_def)
qed

lemma record_attempt_inv:
  assumes "\<forall>s\<in>set (scores db). score_inv s"
  shows "\<forall>s\<in>set (scores (snd (record_attempt db qtype c rt d u now))). score_inv s"
proof -
  let ?db1 = "db\<lparr>attempt_log := attempt_log db @ [\<lparr>a_user_id = effective_user u,
      a_question_type = qtype, a_correct = c, a_response_time_ms = rt, a_difficulty = d\<rparr>]\<rparr>"
  let ?g = "get_or_create_score ?db1 qtype (Some (effective_user u)) now"
  have a: "\<forall>s\<in>set (scores ?db1). score_inv s" using assms by simp
  have i0: "score_inv (fst ?g)" and i1: "\<forall>s\<in>set (scores (snd ?g)). score_inv s"
    using get_or_create_inv [OF a] by blast+
  have eq: "scores (snd (record_attempt db qtype c rt d u now))
      = store (update_score (fst ?g) c now) (scores (snd ?g))"
    by (simp add: record_attempt_def Let_def split_beta)
  show ?thesis
    unfolding eq using set_store [of "update_score (fst ?g) c now" "scores (snd ?g)"]
      score_inv_update [OF i0, of c now] i1 by auto
qed

lemma reachable_inv: "reachable db \<Longrightarrow> \<forall>s\<in>set (scores db). score_inv s"
proof (induction rule: reachable.induct)
  case empty_db
  then show ?case by simp
next
  case (created db t u now)
  then show ?case using get_or_create_inv(2) by blast
next
  case (recorded db qtype correct rt d u now)
  then show ?case using record_attempt_inv by blast
next
  case (cleared db u)
  then show ?case by (simp add: reset_stats_def Let_def)
qed

text \<open>
  Claim C6.  In every database reached from the empty one by creating scores, recording
  attempts and resets, every score row has \<open>0 \<le> total_attempts\<close>,
  \<open>correct_attempts \<le> total_attempts\<close>, \<open>0 \<le> current_streak \<le> best_streak\<close> and a
  difficulty from 1 to 5; so has the row returned by a further recorded attempt, whatever
  its correctness, and every row after it.  A row created for a new topic has all counters
  0 and difficulty 1, and an incorrect answer sets the streak to 0 and leaves the best
  streak as it was.
\<close>

theorem knowledge_score_invariant:
  assumes "reachable db"
  shows "(\<forall>s\<in>set (scores db). score_inv s)
     \<and> score_inv (fst (get_or_create_score db qtype u now))
     \<and> score_inv (fst (record_attempt db qtype correct rt d u now))
     \<and> (\<forall>s\<in>set (scores (snd (record_attempt db qtype correct rt d u now))). score_inv s)
     \<and> (filter (matches (effective_user u) qtype) (scores db) = [] \<longrightarrow>
          (let s0 = fst (get_or_create_score db qtype u now)
           in total_attempts s0 = 0 \<and> correct_attempts s0 = 0 \<and> current_streak s0 = 0
              \<and> best_streak s0 = 0 \<and> current_difficulty s0 = 1))
     \<and> (let s0 = fst (get_or_create_score db qtype u now);
             s = fst (record_attempt db qtype False rt d u now)
         in current_streak s = 0 \<and> best_streak s = best_streak s0)"
proof -
  have i: "\<forall>s\<in>set (scores db). score_inv s" using assms by (rule reachable_inv)
  have g: "score_inv (fst (get_or_create_score db qtype u now))"
    using get_or_create_inv(1) [OF i] .
  have r: "score_inv (fst (record_attempt db qtype correct rt d u now))"
    unfolding fst_record_attempt using g by (rule score_inv_update)
  have a: "\<forall>s\<in>set (scores (snd (record_attempt db qtype correct rt d u now))). score_inv s"
    using record_attempt_inv [OF i] .
  have n: "filter (matches (effective_user u) qtype) (scores db) = [] \<longrightarrow>
          (let s0 = fst (get_or_create_score db qtype u now)
           in total_attempts s0 = 0 \<and> correct_attempts s0 = 0 \<and> current_streak s0 = 0
              \<and> best_streak s0 = 0 \<and> current_difficulty s0 = 1)"
    by (simp add: get_or_create_score_def Let_def)
  have w: "(let s0 = fst (get_or_create_score db qtype u now);
             s = fst (record_attempt db qtype False rt d u now)
         in current_streak s = 0 \<and> best_streak s = best_streak s0)"
    by (simp add: Let_def fst_record_attempt update_score_fields)
  from i g r a n w show ?thesis by blast
qed

theorem knowledge_score_invariant_witness:
  "reachable (snd (record_attempt \<lparr>scores = [], attempt_log = []\<rparr> ''which_wins'' True None 1 None 0))
   \<and> current_streak (fst (record_attempt (snd (record_attempt \<lparr>scores = [], attempt_log = []\<rparr> ''which_wins'' True None 1 None 0)) ''which_wins'' False None 1 None 1)) = 0
   \<and> best_streak (fst (record_attempt (snd (record_attempt \<lparr>scores = [], attempt_log = []\<rparr> ''which_wins'' True None 1 None 0)) ''which_wins'' False None 1 None 1)) = 1
   \<and> score_inv (fst (record_attempt (snd (record_attempt \<lparr>scores = [], attempt_log = []\<rparr> ''which_wins'' True None 1 None 0)) ''which_wins'' False None 1 None 1))"
proof -
  let ?db = "snd (record_attempt \<lparr>scores = [], attempt_log = []\<rparr> ''which_wins'' True None 1 None 0)"
  have r: "reachable ?db"
    by (rule reachable.recorded) (rule reachable.empty_db)
  have b: "best_streak (fst (get_or_create_score ?db ''which_wins'' None 1)) = 1"
    by (simp add: record_attempt_def get_or_create_score_def Let_def effective_user_def
        matches_def update_score_def calculate_new_difficulty_def)
  from knowledge_score_invariant [OF r, of "''which_wins''" None 1 False None 1] r b
  show ?thesis by (simp add: Let_def)
qed

section \<open>Progression: topic recommendation\<close>





section \<open>Card parsing\<close>















section \<open>Starting hands from cards\<close>

text \<open>
  Claim C1 on the code.  \<open>from_cards\<close> writes a ten with \<open>Rank.symbol\<close>, that is as
  \<open>10\<close>, while the category sets write it \<open>T\<close>: the ten and nine of hearts get the
  notation \<open>109s\<close> and two tens \<open>1010\<close>, both in no set and so Weak, where the
  notations \<open>T9s\<close> and \<open>TT\<close> are Playable and Strong.
\<close>

theorem from_cards_ten_is_weak:
  "get_category (from_cards (Card TEN HEARTS) (Card NINE HEARTS)) = WEAK
   \<and> hand_notation (from_cards (Card TEN HEARTS) (Card NINE HEARTS)) = ''109s''
   \<and> category_of_notation ''T9s'' = PLAYABLE
   \<and> get_category (from_cards (Card TEN HEARTS) (Card TEN SPADES)) = WEAK
   \<and> hand_notation (from_cards (Card TEN HEARTS) (Card TEN SPADES)) = ''1010''
   \<and> category_of_notation ''TT'' = STRONG
   \<and> round_trip ''T9s'' zero_tape = Inr (PLAYABLE, WEAK)
   \<and> round_trip ''TT'' zero_tape = Inr (STRONG, WEAK)"
  by code_simp

text \<open>
  On the tape of zeros the round trip changes the category of exactly the eleven
  notations with a ten; the others keep theirs.
\<close>

lemma round_trip_changes_tens:
  "filter (\<lambda>n. case round_trip n zero_tape of Inr (a, b) \<Rightarrow> a \<noteq> b | Inl e \<Rightarrow> True)
     all_notations
   = [''TT'', ''ATs'', ''KTs'', ''QTs'', ''JTs'', ''T9s'', ''ATo'', ''KTo'', ''QTo'',
      ''JTo'', ''T8s'']"
  by code_simp

section \<open>Hand evaluation\<close>

subsection \<open>Tuple order and the rank counter\<close>

lemma tuple_lt_less: "tuple_lt xs ys = (xs < ys)"
  by (induction xs ys rule: tuple_lt.induct) auto

lemma map_of_counter_add:
  "map_of (counter_add x m) k =
     (if k = x then Some (case map_of m x of None \<Rightarrow> 1 | Some c \<Rightarrow> Suc c) else map_of m k)"
  by (induction m) auto

lemma keys_counter_add: "set (map fst (counter_add x m)) = insert x (set (map fst m))"
proof (induction m)
  case Nil
  then show ?case by simp
next
  case (Cons a m)
  obtain k c where a: "a = (k, c)" by (cases a)
  show ?case
  proof (cases "k = x")
    case True
    then show ?thesis by (simp add: a)
  next
    case False
    then have "set (map fst (counter_add x (a # m))) = insert k (set (map fst (counter_add x m)))"
      by (simp add: a)
    also have "\<dots> = insert k (insert x (set (map fst m)))"
      unfolding Cons.IH ..
    finally show ?thesis by (auto simp: a)
  qed
qed

lemma distinct_counter_add: "distinct (map fst m) \<Longrightarrow> distinct (map fst (counter_add x m))"
proof (induction m)
  case Nil
  then show ?case by simp
next
  case (Cons a m)
  obtain k c where a: "a = (k, c)" by (cases a)
  from Cons have "k \<notin> set (map fst m)" "distinct (map fst (counter_add x m))" by (auto simp: a)
  then show ?case using Cons.prems keys_counter_add [of x m] by (auto simp: a)
qed

lemma counter_loop:
  "distinct (map fst m) \<Longrightarrow>
     distinct (map fst (foldl (\<lambda>m x. counter_add x m) m xs))
     \<and> (\<forall>k. map_of (foldl (\<lambda>m x. counter_add x m) m xs) k =
           (if count_list xs k = 0 then map_of m k
            else Some ((case map_of m k of None \<Rightarrow> 0 | Some c \<Rightarrow> c) + count_list xs k)))"
proof (induction xs arbitrary: m)
  case Nil
  then show ?case by simp
next
  case (Cons x xs)
  have d: "distinct (map fst (counter_add x m))"
    using Cons.prems by (rule distinct_counter_add)
  show ?case
    using Cons.IH [OF d] by (auto simp: map_of_counter_add split: option.splits)
qed

lemma Counter_entry:
  "(r, c) \<in> set (Counter xs) \<Longrightarrow> c = count_list xs r \<and> c \<noteq> 0"
proof -
  assume a: "(r, c) \<in> set (Counter xs)"
  have d: "distinct (map fst (Counter xs))"
    and m: "\<And>k. map_of (Counter xs) k = (if count_list xs k = 0 then None else Some (count_list xs k))"
    using counter_loop [of "[]" xs] by (simp_all add: Counter_def)
  from a d have "map_of (Counter xs) r = Some c" by simp
  with m [of r] show ?thesis by (auto split: if_splits)
qed

lemma Counter_distinct: "distinct (map fst (Counter xs))"
  using counter_loop [of "[]" xs] by (simp add: Counter_def)

lemma ranks_with_count_first:
  assumes "n \<in> set (counter_values (Counter xs))"
  shows "\<exists>q. first (ranks_with_count (Counter xs) n) = Inr q \<and> count_list xs q = n"
proof -
  from assms obtain r where r: "(r, n) \<in> set (Counter xs)"
    by (auto simp: counter_values_def)
  then have ne: "ranks_with_count (Counter xs) n \<noteq> []"
    by (auto simp: ranks_with_count_def filter_empty_conv)
  then obtain q rest where q: "ranks_with_count (Counter xs) n = q # rest"
    by (cases "ranks_with_count (Counter xs) n") auto
  then have "q \<in> set (ranks_with_count (Counter xs) n)" by simp
  then have "(q, n) \<in> set (Counter xs)" by (auto simp: ranks_with_count_def)
  then have "count_list xs q = n" using Counter_entry by fastforce
  with q show ?thesis by (simp add: first_def)
qed

lemma ranks_with_count_props:
  "distinct (ranks_with_count (Counter xs) n)"
  "p \<in> set (ranks_with_count (Counter xs) n) \<Longrightarrow> count_list xs p = n"
proof -
  show "distinct (ranks_with_count (Counter xs) n)"
    unfolding ranks_with_count_def using Counter_distinct [of xs] by (rule distinct_map_filter)
  assume "p \<in> set (ranks_with_count (Counter xs) n)"
  then have "(p, n) \<in> set (Counter xs)" by (auto simp: ranks_with_count_def)
  then show "count_list xs p = n" using Counter_entry by fastforce
qed

lemma count_all_same: "filter (\<lambda>r. r \<noteq> q) xs = [] \<Longrightarrow> count_list xs q = length xs"
  by (induction xs) (auto split: if_splits)

lemma count_two: "a \<noteq> b \<Longrightarrow> set xs \<subseteq> {a, b} \<Longrightarrow> length xs = count_list xs a + count_list xs b"
  by (induction xs) auto

lemma first_nonempty: "xs \<noteq> [] \<Longrightarrow> \<exists>x. first xs = Inr x"
  by (cases xs) (auto simp: first_def)

lemma set_sorted_desc: "set (sorted_desc xs) = set xs" and length_sorted_desc: "length (sorted_desc xs) = length xs"
  by (simp_all add: sorted_desc_def)

subsection \<open>Five cards always evaluate\<close>

lemma evaluate_five_total:
  assumes "length cs = 5"
  shows "\<exists>e. evaluate_five cs = Inr e \<and> cards e = cs"
proof -
  let ?ranks = "sorted_desc (map (\<lambda>c. rank_value (rank c)) cs)"
  let ?rc = "Counter ?ranks"
  have len: "length ?ranks = 5" using assms by (simp add: length_sorted_desc)
  have quad: "\<exists>q k. first (ranks_with_count ?rc 4) = Inr q \<and> first (filter (\<lambda>r. r \<noteq> q) ?ranks) = Inr k"
    if "4 \<in> set (counter_values ?rc)"
  proof -
    from ranks_with_count_first [OF that] obtain q
      where q: "first (ranks_with_count ?rc 4) = Inr q" "count_list ?ranks q = 4" by blast
    have "filter (\<lambda>r. r \<noteq> q) ?ranks \<noteq> []"
      using count_all_same [of q ?ranks] q(2) len by auto
    from first_nonempty [OF this] q(1) show ?thesis by blast
  qed
  have trips: "\<exists>t. first (ranks_with_count ?rc 3) = Inr t" if "3 \<in> set (counter_values ?rc)"
    using ranks_with_count_first [OF that] by blast
  have pair: "\<exists>p. first (ranks_with_count ?rc 2) = Inr p" if "2 \<in> set (counter_values ?rc)"
    using ranks_with_count_first [OF that] by blast
  have two: "\<exists>k. first (filter (\<lambda>r. r \<notin> set (sorted_desc (ranks_with_count ?rc 2))) ?ranks) = Inr k"
    if "length (ranks_with_count ?rc 2) = 2"
  proof -
    from that obtain a b where ab: "ranks_with_count ?rc 2 = [a, b]"
      by (cases "ranks_with_count ?rc 2"; cases "tl (ranks_with_count ?rc 2)") auto
    have "a \<noteq> b" using ranks_with_count_props(1) [of ?ranks 2] by (simp add: ab)
    have ca: "count_list ?ranks a = 2" and cb: "count_list ?ranks b = 2"
      using ranks_with_count_props(2) [of _ ?ranks 2] by (simp_all add: ab)
    have "filter (\<lambda>r. r \<notin> {a, b}) ?ranks \<noteq> []"
    proof
      assume "filter (\<lambda>r. r \<notin> {a, b}) ?ranks = []"
      then have "set ?ranks \<subseteq> {a, b}" by (auto simp: filter_empty_conv)
      from count_two [OF \<open>a \<noteq> b\<close> this] ca cb len show False by simp
    qed
    then have "filter (\<lambda>r. r \<notin> set (sorted_desc (ranks_with_count ?rc 2))) ?ranks \<noteq> []"
      by (simp add: set_sorted_desc ab)
    from first_nonempty [OF this] show ?thesis .
  qed
  have high: "\<exists>h. first ?ranks = Inr h"
    using len by (intro first_nonempty) auto
  obtain st sh where cs: "check_straight ?ranks = (st, sh)"
    by (cases "check_straight ?ranks") auto
  show ?thesis
    unfolding evaluate_five_def Let_def cs prod.case
    using quad trips pair two high
    by (auto simp: bind_def)
qed

subsection \<open>Combinations and the best hand\<close>

lemma in_combinations: "ys \<in> set (combinations xs k) \<longleftrightarrow> subseq ys xs \<and> length ys = k"
proof (induction xs arbitrary: k ys)
  case Nil
  then show ?case by (cases k) auto
next
  case (Cons x xs)
  show ?case
  proof (cases k)
    case 0
    then show ?thesis by auto
  next
    case (Suc k')
    show ?thesis
    proof (cases ys)
      case Nil
      then show ?thesis by (auto simp: Suc Cons.IH)
    next
      case (Cons y ys')
      then show ?thesis
        using subseq_Cons' [of y ys' xs] by (auto simp: Suc Cons.IH)
    qed
  qed
qed

lemma length_combinations: "length (combinations xs k) = length xs choose k"
proof (induction xs arbitrary: k)
  case Nil
  then show ?case by (cases k) auto
next
  case (Cons x xs)
  then show ?case by (cases k) auto
qed

lemma combinations_all: "combinations xs (length xs) = [xs]"
proof (induction xs)
  case Nil
  then show ?case by simp
next
  case (Cons x xs)
  have "combinations xs (Suc (length xs)) = []"
  proof (rule ccontr)
    assume "combinations xs (Suc (length xs)) \<noteq> []"
    then obtain y where "y \<in> set (combinations xs (Suc (length xs)))"
      by (cases "combinations xs (Suc (length xs))") auto
    then have "subseq y xs" "length y = Suc (length xs)" by (simp_all add: in_combinations)
    then show False using list_emb_length [of "(=)" y xs] by simp
  qed
  then show ?case using Cons by simp
qed

lemma subset_combination:
  assumes "distinct cs" "S \<subseteq> set cs" "card S = k"
  shows "\<exists>c\<in>set (combinations cs k). set c = S"
proof -
  let ?c = "filter (\<lambda>x. x \<in> S) cs"
  have s: "set ?c = S" using assms(2) by auto
  have "distinct ?c" using assms(1) by simp
  then have "card (set ?c) = length ?c" by (rule distinct_card)
  with s assms(3) have "length ?c = k" by simp
  then have "?c \<in> set (combinations cs k)" by (simp add: in_combinations)
  with s show ?thesis by blast
qed

lemma five_key_Inr: "evaluate_five c = Inr h \<Longrightarrow> five_key c = score h"
  by (simp add: five_key_def)

lemma best_of_Some:
  assumes "\<forall>c\<in>set cs. \<exists>h. evaluate_five c = Inr h"
  shows "\<exists>e. best_of cs (Some b) = Inr (Some e)
     \<and> (\<forall>c\<in>set cs. five_key c \<le> score e) \<and> score b \<le> score e
     \<and> (e = b \<or> (\<exists>i<length cs. evaluate_five (cs ! i) = Inr e \<and> score b < score e
                    \<and> (\<forall>j<i. five_key (cs ! j) < score e)))"
  using assms
proof (induction cs arbitrary: b)
  case Nil
  then show ?case by simp
next
  case (Cons c cs)
  from Cons.prems obtain h where h: "evaluate_five c = Inr h" by auto
  have k: "five_key c = score h" using h by (rule five_key_Inr)
  have tot: "\<forall>c\<in>set cs. \<exists>h. evaluate_five c = Inr h" using Cons.prems by simp
  show ?case
  proof (cases "hand_gt h b")
    case True
    then have lt: "score b < score h" by (simp add: hand_gt_def tuple_lt_less)
    have step: "best_of (c # cs) (Some b) = best_of cs (Some h)"
      using h True by (simp add: bind_def)
    from Cons.IH [OF tot, of h] obtain e where e: "best_of cs (Some h) = Inr (Some e)"
        "\<forall>c\<in>set cs. five_key c \<le> score e" "score h \<le> score e"
        "e = h \<or> (\<exists>i<length cs. evaluate_five (cs ! i) = Inr e \<and> score h < score e
                    \<and> (\<forall>j<i. five_key (cs ! j) < score e))"
      by blast
    have all: "\<forall>c'\<in>set (c # cs). five_key c' \<le> score e" using e(2,3) k by simp
    have ble: "score b \<le> score e" using lt e(3) by simp
    have idx: "\<exists>i<length (c # cs). evaluate_five ((c # cs) ! i) = Inr e \<and> score b < score e
                    \<and> (\<forall>j<i. five_key ((c # cs) ! j) < score e)"
    proof (cases "e = h")
      case True
      then show ?thesis using h lt by (intro exI [of _ 0]) simp
    next
      case False
      with e(4) obtain i where i: "i < length cs" "evaluate_five (cs ! i) = Inr e"
          "score h < score e" "\<forall>j<i. five_key (cs ! j) < score e"
        by blast
      have "\<forall>j<Suc i. five_key ((c # cs) ! j) < score e"
        using i(3,4) k by (auto simp: nth_Cons split: nat.splits)
      moreover have "score b < score e" using lt i(3) by simp
      ultimately show ?thesis using i(1,2) by (intro exI [of _ "Suc i"]) simp
    qed
    from e(1) all ble idx show ?thesis unfolding step by blast
  next
    case False
    then have le: "score h \<le> score b" by (simp add: hand_gt_def tuple_lt_less)
    have step: "best_of (c # cs) (Some b) = best_of cs (Some b)"
      using h False by (simp add: bind_def)
    from Cons.IH [OF tot, of b] obtain e where e: "best_of cs (Some b) = Inr (Some e)"
        "\<forall>c\<in>set cs. five_key c \<le> score e" "score b \<le> score e"
        "e = b \<or> (\<exists>i<length cs. evaluate_five (cs ! i) = Inr e \<and> score b < score e
                    \<and> (\<forall>j<i. five_key (cs ! j) < score e))"
      by blast
    have all: "\<forall>c'\<in>set (c # cs). five_key c' \<le> score e" using e(2,3) k le by simp
    have idx: "e = b \<or> (\<exists>i<length (c # cs). evaluate_five ((c # cs) ! i) = Inr e \<and> score b < score e
                    \<and> (\<forall>j<i. five_key ((c # cs) ! j) < score e))"
    proof (cases "e = b")
      case True
      then show ?thesis by simp
    next
      case False
      with e(4) obtain i where i: "i < length cs" "evaluate_five (cs ! i) = Inr e"
          "score b < score e" "\<forall>j<i. five_key (cs ! j) < score e"
        by blast
      have "five_key c < score e" using k le i(3) by simp
      then have "\<forall>j<Suc i. five_key ((c # cs) ! j) < score e"
        using i(4) by (auto simp: nth_Cons split: nat.splits)
      then show ?thesis using i(1,2,3) by (intro disjI2 exI [of _ "Suc i"]) simp
    qed
    from e(1,3) all idx show ?thesis unfolding step by blast
  qed
qed

lemma best_of_None:
  assumes "\<forall>c\<in>set cs. \<exists>h. evaluate_five c = Inr h" "cs \<noteq> []"
  shows "\<exists>e i. best_of cs None = Inr (Some e) \<and> i < length cs
     \<and> evaluate_five (cs ! i) = Inr e
     \<and> (\<forall>j<i. five_key (cs ! j) < score e)
     \<and> (\<forall>c\<in>set cs. five_key c \<le> score e)"
proof -
  from assms(2) obtain c rest where cs: "cs = c # rest" by (cases cs) auto
  from assms(1) obtain h where h: "evaluate_five c = Inr h" by (auto simp: cs)
  have k: "five_key c = score h" using h by (rule five_key_Inr)
  have tot: "\<forall>c\<in>set rest. \<exists>h. evaluate_five c = Inr h" using assms(1) by (simp add: cs)
  have step: "best_of cs None = best_of rest (Some h)"
    using h by (simp add: cs bind_def)
  from best_of_Some [OF tot, of h] obtain e where e: "best_of rest (Some h) = Inr (Some e)"
      "\<forall>c\<in>set rest. five_key c \<le> score e" "score h \<le> score e"
      "e = h \<or> (\<exists>i<length rest. evaluate_five (rest ! i) = Inr e \<and> score h < score e
                  \<and> (\<forall>j<i. five_key (rest ! j) < score e))"
    by blast
  have all: "\<forall>c'\<in>set cs. five_key c' \<le> score e" using e(2,3) k by (simp add: cs)
  have "\<exists>i<length cs. evaluate_five (cs ! i) = Inr e \<and> (\<forall>j<i. five_key (cs ! j) < score e)"
  proof (cases "e = h")
    case True
    then show ?thesis using h by (intro exI [of _ 0]) (simp add: cs)
  next
    case False
    with e(4) obtain i where i: "i < length rest" "evaluate_five (rest ! i) = Inr e"
        "score h < score e" "\<forall>j<i. five_key (rest ! j) < score e"
      by blast
    have "\<forall>j<Suc i. five_key (cs ! j) < score e"
      using i(3,4) k by (auto simp: cs nth_Cons split: nat.splits)
    then show ?thesis using i(1,2) by (intro exI [of _ "Suc i"]) (simp add: cs)
  qed
  with e(1) all show ?thesis unfolding step by blast
qed

lemma evaluate_best:
  assumes "5 \<le> length cs"
  shows "\<exists>e i. evaluate cs = Inr (Some e) \<and> i < length (combinations cs 5)
     \<and> evaluate_five (combinations cs 5 ! i) = Inr e
     \<and> cards e = combinations cs 5 ! i
     \<and> (\<forall>j<i. five_key (combinations cs 5 ! j) < score e)
     \<and> (\<forall>c\<in>set (combinations cs 5). five_key c \<le> score e)"
proof (cases "length cs = 5")
  case True
  then have c: "combinations cs 5 = [cs]" using combinations_all [of cs] by simp
  from evaluate_five_total [OF True] obtain e where e: "evaluate_five cs = Inr e" "cards e = cs"
    by blast
  have "evaluate cs = Inr (Some e)" using True e by (simp add: evaluate_def bind_def)
  then show ?thesis using e by (intro exI [of _ e] exI [of _ 0]) (simp add: c five_key_Inr)
next
  case False
  with assms have l: "5 < length cs" by simp
  have tot: "\<forall>c\<in>set (combinations cs 5). \<exists>h. evaluate_five c = Inr h"
  proof
    fix c assume "c \<in> set (combinations cs 5)"
    then have "length c = 5" by (simp add: in_combinations)
    from evaluate_five_total [OF this] show "\<exists>h. evaluate_five c = Inr h" by blast
  qed
  have "0 < length cs choose 5" using l by (simp add: zero_less_binomial)
  then have ne: "combinations cs 5 \<noteq> []"
    using length_combinations [of cs 5] by auto
  from best_of_None [OF tot ne] obtain e i where e: "best_of (combinations cs 5) None = Inr (Some e)"
      "i < length (combinations cs 5)" "evaluate_five (combinations cs 5 ! i) = Inr e"
      "\<forall>j<i. five_key (combinations cs 5 ! j) < score e"
      "\<forall>c\<in>set (combinations cs 5). five_key c \<le> score e"
    by blast
  have "length (combinations cs 5 ! i) = 5"
    using e(2) in_combinations [of "combinations cs 5 ! i" cs 5] by simp
  from evaluate_five_total [OF this] e(3) have "cards e = combinations cs 5 ! i" by auto
  moreover have "evaluate cs = Inr (Some e)" using l e(1) by (simp add: evaluate_def)
  ultimately show ?thesis using e by blast
qed

lemma key_is_Max:
  assumes "c \<in> set cs" "five_key c = k" "\<forall>c\<in>set cs. five_key c \<le> k"
  shows "k = Max (five_key ` set cs)"
proof -
  have "Max (five_key ` set cs) = k"
    using assms by (intro Max_eqI) auto
  then show ?thesis by simp
qed

lemma choose_five: "(6::nat) choose 5 = 6" "(7::nat) choose 5 = 21"
  by (simp_all add: eval_nat_numeral binomial_Suc_Suc)

text \<open>
  Claim C3, as amended.  For every list of 6 or 7 distinct cards, \<open>evaluate\<close> returns a
  hand whose ordering key is the maximum of the keys of the five-card combinations, which
  number 6 for six cards and 21 for seven and cover every 5-card subset of the input; its
  \<open>cards\<close> are 5 cards of the input; and the hand is the one of the first combination,
  in enumeration order, that reaches the maximum (every earlier one has a smaller key).
\<close>

theorem evaluate_six_or_seven:
  assumes "length cs = 6 \<or> length cs = 7" and "distinct cs"
  shows "\<exists>e. evaluate cs = Inr (Some e)
     \<and> score e = Max (five_key ` set (combinations cs 5))
     \<and> length (cards e) = 5 \<and> set (cards e) \<subseteq> set cs
     \<and> (length cs = 6 \<longrightarrow> length (combinations cs 5) = 6)
     \<and> (length cs = 7 \<longrightarrow> length (combinations cs 5) = 21)
     \<and> (\<forall>S. S \<subseteq> set cs \<and> card S = 5 \<longrightarrow>
           (\<exists>c\<in>set (combinations cs 5). set c = S \<and> five_key c \<le> score e))
     \<and> (\<exists>i<length (combinations cs 5).
           evaluate_five (combinations cs 5 ! i) = Inr e
           \<and> (\<forall>j<i. five_key (combinations cs 5 ! j) < score e))"
proof -
  from assms(1) have "5 \<le> length cs" by auto
  from evaluate_best [OF this] obtain e i where e: "evaluate cs = Inr (Some e)"
      "i < length (combinations cs 5)" "evaluate_five (combinations cs 5 ! i) = Inr e"
      "cards e = combinations cs 5 ! i"
      "\<forall>j<i. five_key (combinations cs 5 ! j) < score e"
      "\<forall>c\<in>set (combinations cs 5). five_key c \<le> score e"
    by blast
  have mem: "combinations cs 5 ! i \<in> set (combinations cs 5)" using e(2) by simp
  then have sub: "subseq (cards e) cs" and len: "length (cards e) = 5"
    by (simp_all add: e(4) in_combinations)
  have subset: "set (cards e) \<subseteq> set cs"
  proof
    fix x assume "x \<in> set (cards e)"
    from list_emb_set [OF sub this] show "x \<in> set cs" by auto
  qed
  have mx: "score e = Max (five_key ` set (combinations cs 5))"
    using mem five_key_Inr [OF e(3)] e(6) by (rule key_is_Max)
  have n6: "length cs = 6 \<longrightarrow> length (combinations cs 5) = 6"
    by (simp add: length_combinations choose_five)
  have n7: "length cs = 7 \<longrightarrow> length (combinations cs 5) = 21"
    by (simp add: length_combinations choose_five)
  have subsets: "\<forall>S. S \<subseteq> set cs \<and> card S = 5 \<longrightarrow>
           (\<exists>c\<in>set (combinations cs 5). set c = S \<and> five_key c \<le> score e)"
    using subset_combination [OF assms(2)] e(6) by blast
  from e(1) mx len subset n6 n7 subsets e(2,3,5) show ?thesis by blast
qed


text \<open>
  Claim C3 as stated counts 15 five-card subsets of six cards; there are 6.
\<close>

theorem six_cards_six_subsets_counterexample:
  "length six_cards = 6 \<and> distinct six_cards \<and> length (combinations six_cards 5) = 6"
proof -
  have l: "length six_cards = 6" by (simp add: six_cards_def)
  have d: "distinct six_cards" by (simp add: six_cards_def)
  have "length (combinations six_cards 5) = 6 choose 5"
    unfolding length_combinations l ..
  with l d show ?thesis by (simp add: choose_five)
qed

theorem evaluate_six_or_seven_witness:
  "(length seven_cards = 6 \<or> length seven_cards = 7) \<and> distinct seven_cards
   \<and> (\<exists>e. evaluate seven_cards = Inr (Some e)
         \<and> score e = Max (five_key ` set (combinations seven_cards 5))
         \<and> length (cards e) = 5 \<and> set (cards e) \<subseteq> set seven_cards
         \<and> length (combinations seven_cards 5) = 21)"
proof -
  have l: "length seven_cards = 6 \<or> length seven_cards = 7" by (simp add: seven_cards_def)
  have d: "distinct seven_cards" by (simp add: seven_cards_def)
  have 7: "length seven_cards = 7" by (simp add: seven_cards_def)
  from evaluate_six_or_seven [OF l d] 7 l d show ?thesis by blast
qed

text \<open>The best-of-seven example of the specification (section 8).\<close>

lemma evaluate_seven_cards:
  "evaluate seven_cards = Inr (Some \<lparr>hrank = ROYAL_FLUSH, primary_values = [14], kickers = [],
      cards = royal_hearts\<rparr>)"
  by code_simp

text \<open>The five-card examples of the specification (section 8).\<close>

lemma evaluate_five_examples:
  "map_sum id (\<lambda>h. (hrank h, primary_values h, kickers h))
     (evaluate_five [Card ACE HEARTS, Card TWO DIAMONDS, Card THREE CLUBS, Card FOUR SPADES,
        Card FIVE HEARTS]) = Inr (STRAIGHT, [5], [])"
  "map_sum id (\<lambda>h. (hrank h, primary_values h, kickers h))
     (evaluate_five [Card NINE HEARTS, Card EIGHT HEARTS, Card SEVEN HEARTS, Card SIX HEARTS,
        Card FIVE HEARTS]) = Inr (STRAIGHT_FLUSH, [9], [])"
  "map_sum id (\<lambda>h. (hrank h, primary_values h, kickers h))
     (evaluate_five [Card ACE HEARTS, Card ACE DIAMONDS, Card ACE CLUBS, Card ACE SPADES,
        Card KING HEARTS]) = Inr (FOUR_OF_A_KIND, [14], [13])"
  "map_sum id (\<lambda>h. (hrank h, primary_values h, kickers h))
     (evaluate_five [Card ACE HEARTS, Card ACE DIAMONDS, Card KING CLUBS, Card KING SPADES,
        Card QUEEN HEARTS]) = Inr (TWO_PAIR, [14, 13], [12])"
  "map_sum id (\<lambda>h. (hrank h, primary_values h, kickers h))
     (evaluate_five [Card ACE HEARTS, Card ACE DIAMONDS, Card ACE CLUBS, Card KING SPADES,
        Card KING HEARTS]) = Inr (FULL_HOUSE, [14, 13], [])"
  "map_sum id (\<lambda>h. (hrank h, primary_values h, kickers h))
     (evaluate_five pair_of_aces) = Inr (ONE_PAIR, [14], [13, 7, 2])"
  by code_simp+

subsection \<open>Any number of cards; comparison\<close>

text \<open>
  Claim C10.  \<open>evaluate\<close> has no upper bound on the number of cards: for every list of at
  least 5 cards, of any length, it returns a hand, which is the evaluation of 5 cards
  taken from the input in order and whose key is the maximum over all five-card
  combinations of the input.  It raises exactly when the list has fewer than 5 cards, and
  then a ValueError.
\<close>

theorem evaluate_any_size:
  "(5 \<le> length cs \<longrightarrow>
      (\<exists>e. evaluate cs = Inr (Some e)
         \<and> cards e \<in> set (combinations cs 5)
         \<and> subseq (cards e) cs \<and> length (cards e) = 5
         \<and> evaluate_five (cards e) = Inr e
         \<and> score e = Max (five_key ` set (combinations cs 5))
         \<and> (\<forall>c. subseq c cs \<and> length c = 5 \<longrightarrow> five_key c \<le> score e)))
   \<and> ((\<exists>err. evaluate cs = Inl err) \<longleftrightarrow> length cs < 5)
   \<and> (length cs < 5 \<longrightarrow> evaluate cs = Inl ValueError)"
proof -
  have a: "5 \<le> length cs \<longrightarrow>
      (\<exists>e. evaluate cs = Inr (Some e)
         \<and> cards e \<in> set (combinations cs 5)
         \<and> subseq (cards e) cs \<and> length (cards e) = 5
         \<and> evaluate_five (cards e) = Inr e
         \<and> score e = Max (five_key ` set (combinations cs 5))
         \<and> (\<forall>c. subseq c cs \<and> length c = 5 \<longrightarrow> five_key c \<le> score e))"
  proof
    assume "5 \<le> length cs"
    from evaluate_best [OF this] obtain e i where e: "evaluate cs = Inr (Some e)"
        "i < length (combinations cs 5)" "evaluate_five (combinations cs 5 ! i) = Inr e"
        "cards e = combinations cs 5 ! i"
        "\<forall>c\<in>set (combinations cs 5). five_key c \<le> score e"
      by blast
    have mem: "cards e \<in> set (combinations cs 5)" using e(2,4) by simp
    then have sub: "subseq (cards e) cs" "length (cards e) = 5"
      by (simp_all add: in_combinations)
    have ev: "evaluate_five (cards e) = Inr e" using e(3,4) by simp
    have mx: "score e = Max (five_key ` set (combinations cs 5))"
      using mem five_key_Inr [OF ev] e(5) by (rule key_is_Max)
    have all: "\<forall>c. subseq c cs \<and> length c = 5 \<longrightarrow> five_key c \<le> score e"
      using e(5) by (simp add: in_combinations)
    from e(1) mem sub ev mx all
    show "\<exists>e. evaluate cs = Inr (Some e)
         \<and> cards e \<in> set (combinations cs 5)
         \<and> subseq (cards e) cs \<and> length (cards e) = 5
         \<and> evaluate_five (cards e) = Inr e
         \<and> score e = Max (five_key ` set (combinations cs 5))
         \<and> (\<forall>c. subseq c cs \<and> length c = 5 \<longrightarrow> five_key c \<le> score e)"
      by blast
  qed
  have c: "length cs < 5 \<longrightarrow> evaluate cs = Inl ValueError"
    by (simp add: evaluate_def)
  have b: "(\<exists>err. evaluate cs = Inl err) \<longleftrightarrow> length cs < 5"
  proof (cases "length cs < 5")
    case True
    with c show ?thesis by simp
  next
    case False
    then have "5 \<le> length cs" by simp
    with a obtain e where "evaluate cs = Inr (Some e)" by blast
    with False show ?thesis by simp
  qed
  from a b c show ?thesis by blast
qed

theorem evaluate_any_size_witness:
  "5 \<le> length eight_cards \<and> length eight_cards = 8
   \<and> (\<exists>e. evaluate eight_cards = Inr (Some e)
         \<and> subseq (cards e) eight_cards \<and> length (cards e) = 5
         \<and> score e = Max (five_key ` set (combinations eight_cards 5)))
   \<and> evaluate (take 4 eight_cards) = Inl ValueError"
proof -
  have l: "5 \<le> length eight_cards" and l8: "length eight_cards = 8"
    by (simp_all add: eight_cards_def)
  have s: "length (take 4 eight_cards) < 5" by simp
  from evaluate_any_size [of eight_cards] l
  have 1: "\<exists>e. evaluate eight_cards = Inr (Some e)
         \<and> subseq (cards e) eight_cards \<and> length (cards e) = 5
         \<and> score e = Max (five_key ` set (combinations eight_cards 5))"
    by blast
  from evaluate_any_size [of "take 4 eight_cards"] s
  have 2: "evaluate (take 4 eight_cards) = Inl ValueError" by blast
  from l l8 1 2 show ?thesis by blast
qed

text \<open>Eight cards holding three nines and two fours evaluate to the full house.\<close>

lemma evaluate_eight_cards:
  "evaluate eight_cards = Inr (Some \<lparr>hrank = FULL_HOUSE, primary_values = [9, 4], kickers = [],
      cards = [Card NINE HEARTS, Card NINE DIAMONDS, Card NINE CLUBS, Card FOUR SPADES,
               Card FOUR HEARTS]\<rparr>)"
  by code_simp

lemma hand_key_score: "evaluate cs = Inr (Some e) \<Longrightarrow> hand_key cs = score e"
  by (simp add: hand_key_def)

lemma compare_hands_value:
  assumes "evaluate a = Inr (Some x)" "evaluate b = Inr (Some y)"
  shows "compare_hands a b = Inr (if score y < score x then 1 else if score x < score y then - 1 else 0)"
  using assms
  by (simp add: compare_hands_def bind_def gt_opt_def lt_opt_def hand_gt_def hand_lt_def
      tuple_lt_less)

text \<open>
  Claim C4.  For card lists of at least 5 cards, \<open>compare_hands\<close> returns 1, -1 or 0;
  swapping the arguments negates the result; the result is 1, -1 or 0 as the key of the
  second hand is below, above or equal to the key of the first, in the lexicographic
  order of integer lists; and the induced order is transitive: from
  \<open>compare_hands a b \<ge> 0\<close> and \<open>compare_hands b c \<ge> 0\<close> follows
  \<open>compare_hands a c \<ge> 0\<close>.
\<close>

theorem compare_hands_order:
  assumes "5 \<le> length a" "5 \<le> length b" "5 \<le> length c"
  shows "\<exists>x. compare_hands a b = Inr x \<and> (x = 1 \<or> x = - 1 \<or> x = 0)
     \<and> compare_hands b a = Inr (- x)
     \<and> (x = 1 \<longleftrightarrow> tuple_lt (hand_key b) (hand_key a))
     \<and> (x = - 1 \<longleftrightarrow> tuple_lt (hand_key a) (hand_key b))
     \<and> (x = 0 \<longleftrightarrow> hand_key a = hand_key b)
     \<and> (tuple_lt (hand_key b) (hand_key a) \<longleftrightarrow> hand_key b < hand_key a)
     \<and> (\<forall>y. 0 \<le> x \<and> compare_hands b c = Inr y \<and> 0 \<le> y \<longrightarrow>
            (\<exists>z. compare_hands a c = Inr z \<and> 0 \<le> z))"
proof -
  from evaluate_best [OF assms(1)] obtain ea where ea: "evaluate a = Inr (Some ea)" by blast
  from evaluate_best [OF assms(2)] obtain eb where eb: "evaluate b = Inr (Some eb)" by blast
  from evaluate_best [OF assms(3)] obtain ec where ec: "evaluate c = Inr (Some ec)" by blast
  note k = hand_key_score [OF ea] hand_key_score [OF eb] hand_key_score [OF ec]
  note v = compare_hands_value [OF ea eb] compare_hands_value [OF eb ea]
    compare_hands_value [OF eb ec] compare_hands_value [OF ea ec]
  show ?thesis
    unfolding v k tuple_lt_less
    by (auto split: if_splits)
qed

theorem compare_hands_order_witness:
  "5 \<le> length pair_of_aces \<and> 5 \<le> length pair_of_kings \<and> 5 \<le> length seven_cards
   \<and> compare_hands seven_cards pair_of_aces = Inr 1
   \<and> compare_hands pair_of_aces seven_cards = Inr (- 1)
   \<and> compare_hands pair_of_aces pair_of_kings = Inr 1
   \<and> compare_hands seven_cards pair_of_kings = Inr 1"
proof -
  have l: "5 \<le> length pair_of_aces" "5 \<le> length pair_of_kings" "5 \<le> length seven_cards"
    by (simp_all add: pair_of_aces_def pair_of_kings_def seven_cards_def)
  have 1: "compare_hands seven_cards pair_of_aces = Inr 1" by code_simp
  have 2: "compare_hands pair_of_aces pair_of_kings = Inr 1" by code_simp
  from compare_hands_order [OF l(3) l(1) l(2)] 1 2
  have "compare_hands pair_of_aces seven_cards = Inr (- 1)"
    and "\<exists>z. compare_hands seven_cards pair_of_kings = Inr z \<and> 0 \<le> z"
    by auto
  moreover from compare_hands_order [OF l(3) l(2) l(1)]
  have "\<exists>x. compare_hands seven_cards pair_of_kings = Inr x \<and> (x = 1 \<or> x = - 1 \<or> x = 0)
      \<and> (x = 0 \<longleftrightarrow> hand_key seven_cards = hand_key pair_of_kings)"
    by blast
  moreover have "hand_key seven_cards \<noteq> hand_key pair_of_kings" by code_simp
  ultimately have "compare_hands seven_cards pair_of_kings = Inr 1" by auto
  with l 1 2 \<open>compare_hands pair_of_aces seven_cards = Inr (- 1)\<close> show ?thesis by blast
qed

section \<open>Question generator\<close>

text \<open>
  Claim C2 on the code.  \<open>_make_straight_flush\<close> draws its high rank from 5 to 9 and
  builds the ranks \<open>high, high - 1, \<dots>, high - 4\<close>; for the high rank 5 the last one is
  1, and \<open>Rank(1)\<close> raises ValueError.  Nothing catches it: on the tape of zeros (suit
  hearts, high rank 5) \<open>_generate_hand_of_rank\<close> raises ValueError at its first attempt
  for a straight flush instead of returning 5 cards.
\<close>

theorem straight_flush_raises:
  "outcome (generate_hand_of_rank STRAIGHT_FLUSH None) zero_tape = Some (Inl ValueError)"
  by code_simp

text \<open>
  Claim C7 on the code.  The excluded cards are removed from the deck, and no constructor
  reads the deck.  On a tape that picks the royal flush as target rank and hearts as suit
  both times, the which-wins question of difficulty 3 holds the same five cards twice.
\<close>

theorem which_wins_same_cards:
  "outcome (generate_which_wins_question 3) royal_tape =
     Some (Inr \<lparr>question_type = ''which_wins'', prompt = ''Which hand wins?'',
                q_cards = royal_hearts, q_cards2 = Some royal_hearts,
                q_choices = [''Hand 1'', ''Hand 2'', ''Tie''],
                correct_answer = ''Tie'', q_difficulty = 3\<rparr>)"
  by code_simp

lemma randbelow_tape: "tape (snd (randbelow n g)) = tape g"
  by (simp add: randbelow_def)

lemma shuffle_loop_tape: "tape (snd (shuffle_loop n xs g)) = tape g"
  by (induction n arbitrary: xs g) (simp_all add: randbelow_def split_beta Let_def)

lemma reset_tape: "tape (snd (reset g)) = tape g"
  by (simp add: reset_def shuffle_def shuffle_loop_tape)

lemma choice_list_zero:
  "tape g = (\<lambda>i. 0) \<Longrightarrow>
     \<exists>g'. choice_list n all_suits g = Inr (replicate n HEARTS, g') \<and> tape g' = (\<lambda>i. 0)"
proof (induction n arbitrary: g)
  case 0
  then show ?case by simp
next
  case (Suc n)
  let ?g1 = "g\<lparr>pos := Suc (pos g)\<rparr>"
  have c: "choice all_suits g = Inr (HEARTS, ?g1)"
    using Suc.prems by (simp add: choice_def randbelow_def all_suits_def)
  have "tape ?g1 = (\<lambda>i. 0)" using Suc.prems by simp
  from Suc.IH [OF this] obtain g' where "choice_list n all_suits ?g1 = Inr (replicate n HEARTS, g')"
      "tape g' = (\<lambda>i. 0)" by blast
  with c show ?case by (simp add: bind_def)
qed

lemma suits_loop_zero_aux:
  assumes "suits_loop suits cs g = Some r"
  shows "\<not> (suits = all_suits \<and> cs = replicate 5 HEARTS \<and> tape g = (\<lambda>i. 0))"
proof (rule suits_loop.raw_induct
    [where P = "\<lambda>suits cs g r. \<not> (suits = all_suits \<and> cs = replicate 5 HEARTS \<and> tape g = (\<lambda>i. 0))",
     OF _ assms])
  fix f :: "Suit list \<Rightarrow> Suit list \<Rightarrow> rng \<Rightarrow> (error + Suit list \<times> rng) option"
    and suits cs g r
  assume IH: "\<And>suits cs g r. f suits cs g = Some r \<Longrightarrow>
      \<not> (suits = all_suits \<and> cs = replicate 5 HEARTS \<and> tape g = (\<lambda>i. 0))"
    and body: "(if length (remdups cs) = 1
      then case choice_list 5 suits g of Inl e \<Rightarrow> Some (Inl e)
           | Inr (card_suits', g') \<Rightarrow> f suits card_suits' g'
      else Some (Inr (cs, g))) = Some r"
  show "\<not> (suits = all_suits \<and> cs = replicate 5 HEARTS \<and> tape g = (\<lambda>i. 0))"
  proof
    assume a: "suits = all_suits \<and> cs = replicate 5 HEARTS \<and> tape g = (\<lambda>i. 0)"
    then obtain g' where g': "choice_list 5 all_suits g = Inr (replicate 5 HEARTS, g')"
        "tape g' = (\<lambda>i. 0)"
      using choice_list_zero [of g 5] by blast
    have "length (remdups cs) = 1" using a by (simp add: eval_nat_numeral)
    with body a g' have "f all_suits (replicate 5 HEARTS) g' = Some r" by simp
    from IH [OF this] g'(2) show False by simp
  qed
qed

lemma suits_loop_zero:
  "tape g = (\<lambda>i. 0) \<Longrightarrow> suits_loop all_suits (replicate 5 HEARTS) g = None"
  using suits_loop_zero_aux [of all_suits "replicate 5 HEARTS" g]
  by (cases "suits_loop all_suits (replicate 5 HEARTS) g") auto

lemma make_straight_zero:
  assumes "tape g = (\<lambda>i. 0)"
  shows "make_straight deck g = None"
proof -
  let ?g1 = "g\<lparr>pos := Suc (pos g)\<rparr>"
  have r: "randint 5 14 g = (5, ?g1)"
    using assms by (simp add: randint_def randbelow_def)
  have t1: "tape ?g1 = (\<lambda>i. 0)" using assms by simp
  from choice_list_zero [OF t1, of 5] obtain g2
    where g2: "choice_list 5 all_suits ?g1 = Inr (replicate 5 HEARTS, g2)" "tape g2 = (\<lambda>i. 0)"
    by blast
  from suits_loop_zero [OF g2(2)] r g2(1) show ?thesis
    by (simp add: make_straight_def gbind_def of_rnd_def of_res_def Let_def)
qed

lemma attempts_straight_zero:
  assumes "tape g = (\<lambda>i. 0)"
  shows "attempts (Suc n) STRAIGHT ex g = None"
proof -
  obtain deck g1 where d: "reset g = (deck, g1)" by (cases "reset g") auto
  then have "tape g1 = (\<lambda>i. 0)" using reset_tape [of g] assms by simp
  from make_straight_zero [OF this] d show ?thesis
    by (simp add: gbind_def of_rnd_def make_hand_def)
qed

text \<open>
  The \<open>while\<close> loops of the constructors have no bound.  On the tape of zeros every
  suit drawn is hearts, the loop of \<open>_make_straight\<close> that waits for two different
  suits never ends, and \<open>_generate_hand_of_rank\<close> does not return for a straight.
\<close>

lemma straight_never_returns:
  "generate_hand_of_rank STRAIGHT None zero_tape = None"
proof -
  obtain deck g1 where d: "reset zero_tape = (deck, g1)" by (cases "reset zero_tape") auto
  then have "tape g1 = (\<lambda>i. 0)" using reset_tape [of zero_tape] by (simp add: zero_tape_def)
  from attempts_straight_zero [OF this, of 99 None] d show ?thesis
    by (simp add: generate_hand_of_rank_def gbind_def of_rnd_def Let_def eval_nat_numeral)
qed

end
